theory Spec2Isabelle
  imports Complex_Main "HOL-Library.AList"
begin

section \<open>Monthly payroll: deductions, gross solver, row processing, aggregation\<close>

text \<open>
  A shallow embedding of \<^verbatim>\<open>monthly_payroll.py\<close>. Amounts are Python floats in the
  source. The main model reads them as exact real numbers, so every product, sum and
  comparison is the mathematical one and the decimal constants (0.08, 0.006, ...) are the
  decimal fractions themselves; a second model of the deduction computation rounds every
  operation to binary64 and is used where the rounding decides the property. Integers
  produced by \<^verbatim>\<open>math.ceil\<close> and the whole-unit loop are \<open>int\<close>. A field that may be missing
  (\<^verbatim>\<open>None\<close>) and is read as \<^verbatim>\<open>x or 0\<close> is an \<open>option\<close>.
\<close>

subsection \<open>PAYE brackets and the deduction computation\<close>

text \<open>\<^verbatim>\<open>_paye_rwanda(gross)\<close>: the monthly bracket tax, branches in the source's order.\<close>

definition paye_rwanda :: "real \<Rightarrow> real" where
  "paye_rwanda g =
     (if g \<le> 60000 then 0
      else if g \<le> 100000 then 0.10 * (g - 60000)
      else if g \<le> 200000 then 4000 + 0.20 * (g - 100000)
      else 24000 + 0.30 * (g - 200000))"

text \<open>
  The dictionary returned by \<^verbatim>\<open>_calc_all\<close>, keys in the source's order. The type of
  \<open>gross_pay\<close> is a parameter: \<^verbatim>\<open>_calc_all\<close> stores the float \<open>g\<close> there, the solver
  overwrites it with an integer.
\<close>

record 'g vals =
  paye :: real
  rssb_employer :: real
  rssb_employee :: real
  maternity_employer :: real
  maternity_employee :: real
  net_salary :: real
  cbhi :: real
  take_home_2 :: real
  gross_pay :: 'g

definition calc_all :: "real \<Rightarrow> bool \<Rightarrow> real vals" where
  "calc_all g apply_tax =
     (let paye = (if apply_tax then paye_rwanda g else 0);
          rssb_empr = 0.08 * g;
          rssb_empl = 0.06 * g;
          mat_empr = 0.006 * g;
          mat_empl = 0.003 * g;
          net_salary = g - (paye + rssb_empr + rssb_empl + mat_empr + mat_empl);
          cbhi = 0.005 * net_salary;
          take_home_2 = net_salary - cbhi
      in \<lparr>paye = paye,
          rssb_employer = rssb_empr,
          rssb_employee = rssb_empl,
          maternity_employer = mat_empr,
          maternity_employee = mat_empl,
          net_salary = net_salary,
          cbhi = cbhi,
          take_home_2 = take_home_2,
          gross_pay = g\<rparr>)"

subsection \<open>The gross solver\<close>

text \<open>
  Python's \<^verbatim>\<open>round(x, 0)\<close> on a float: the nearest whole number, a tie going to the even
  neighbour.
\<close>

definition py_round :: "real \<Rightarrow> real" where
  "py_round x =
     (let f = \<lfloor>x\<rfloor>; d = x - of_int f
      in if d < 1 / 2 then of_int f
         else if 1 / 2 < d then of_int (f + 1)
         else if even f then of_int f else of_int (f + 1))"

text \<open>\<^verbatim>\<open>for k in vals: vals[k] = round(vals[k], 0)\<close>, over all nine keys.\<close>

definition round_all :: "real vals \<Rightarrow> real vals" where
  "round_all v =
     \<lparr>paye = py_round (paye v),
      rssb_employer = py_round (rssb_employer v),
      rssb_employee = py_round (rssb_employee v),
      maternity_employer = py_round (maternity_employer v),
      maternity_employee = py_round (maternity_employee v),
      net_salary = py_round (net_salary v),
      cbhi = py_round (cbhi v),
      take_home_2 = py_round (take_home_2 v),
      gross_pay = py_round (gross_pay v)\<rparr>"

text \<open>\<^verbatim>\<open>vals["gross_pay"] = g\<close>: the key is overwritten, here with a value of another type.\<close>

definition set_gross_pay :: "'a vals \<Rightarrow> 'b \<Rightarrow> 'b vals" where
  "set_gross_pay v g =
     \<lparr>paye = paye v,
      rssb_employer = rssb_employer v,
      rssb_employee = rssb_employee v,
      maternity_employer = maternity_employer v,
      maternity_employee = maternity_employee v,
      net_salary = net_salary v,
      cbhi = cbhi v,
      take_home_2 = take_home_2 v,
      gross_pay = g\<rparr>"

text \<open>The final rounding loop, over the eight keys other than \<open>gross_pay\<close>.\<close>

definition round_fields :: "'g vals \<Rightarrow> 'g vals" where
  "round_fields v =
     v\<lparr>paye := py_round (paye v),
       rssb_employer := py_round (rssb_employer v),
       rssb_employee := py_round (rssb_employee v),
       maternity_employer := py_round (maternity_employer v),
       maternity_employee := py_round (maternity_employee v),
       net_salary := py_round (net_salary v),
       cbhi := py_round (cbhi v),
       take_home_2 := py_round (take_home_2 v)\<rparr>"

text \<open>
  The doubling loop \<^verbatim>\<open>for _ in range(30)\<close>: the first argument is the number of
  iterations left, the result is the final \<open>hi\<close>.
\<close>

fun upper_bound :: "nat \<Rightarrow> real \<Rightarrow> bool \<Rightarrow> real \<Rightarrow> real" where
  "upper_bound 0 T apply_tax hi = hi"
| "upper_bound (Suc n) T apply_tax hi =
     (if T \<le> take_home_2 (calc_all hi apply_tax) then hi
      else upper_bound n T apply_tax (hi * 2))"

text \<open>
  The bisection loop \<^verbatim>\<open>for _ in range(max_iter)\<close>: the first argument is the number of
  iterations left, the result is the final \<open>hi\<close> (the only variable read after the loop).
\<close>

fun binary_search :: "nat \<Rightarrow> real \<Rightarrow> bool \<Rightarrow> real \<Rightarrow> real \<Rightarrow> real \<Rightarrow> real" where
  "binary_search 0 T apply_tax tolerance lo hi = hi"
| "binary_search (Suc n) T apply_tax tolerance lo hi =
     (let mid = (lo + hi) / 2;
          th2 = take_home_2 (calc_all mid apply_tax)
      in if \<bar>th2 - T\<bar> \<le> tolerance then mid
         else if th2 < T then binary_search n T apply_tax tolerance mid hi
         else binary_search n T apply_tax tolerance lo mid)"

text \<open>
  The whole-unit loop \<^verbatim>\<open>while vals["take_home_2"] < T: g += 1\<close>. The source gives it no
  bound, so it is a partial function: \<open>None\<close> stands for a loop that never ends.
\<close>

partial_function (option) round_up :: "real \<Rightarrow> bool \<Rightarrow> int \<Rightarrow> int option" where
  "round_up T apply_tax g =
     (if take_home_2 (calc_all (of_int g) apply_tax) < T
      then round_up T apply_tax (g + 1)
      else Some g)"

declare round_up.simps [code]

text \<open>
  \<^verbatim>\<open>rwanda_gross_for_take_home(take_home, apply_tax, tolerance, max_iter)\<close>. A negative
  \<open>max_iter\<close> gives an empty range, hence \<open>nat max_iter\<close> iterations.
\<close>

definition rwanda_gross_for_take_home :: "real \<Rightarrow> bool \<Rightarrow> real \<Rightarrow> int \<Rightarrow> int vals option" where
  "rwanda_gross_for_take_home take_home apply_tax tolerance max_iter =
     (let T = take_home
      in if T \<le> 0 then Some (set_gross_pay (round_all (calc_all 0 apply_tax)) 0)
         else
           let hi = upper_bound 30 T apply_tax (max (T / 0.55) 200000);
               hi = binary_search (nat max_iter) T apply_tax tolerance 0 hi
           in case round_up T apply_tax \<lceil>hi\<rceil> of
                None \<Rightarrow> None
              | Some g \<Rightarrow>
                  Some (round_fields (set_gross_pay (calc_all (of_int g) apply_tax) g)))"

subsection \<open>Row processing\<close>

text \<open>
  A child row of the payroll document. The numeric fields may be unset; the source reads
  them as \<^verbatim>\<open>x or 0\<close>. \<open>row_apply_tax\<close> is the truth value \<^verbatim>\<open>bool(row.apply_tax)\<close>.
\<close>

record row =
  row_employee :: "string option"
  row_employee_type :: "string option"
  row_take_home :: "real option"
  row_apply_tax :: bool
  row_gross_pay :: "real option"
  row_paye :: "real option"
  row_rssb_employer :: "real option"
  row_rssb_employee :: "real option"
  row_maternity_employer :: "real option"
  row_maternity_employee :: "real option"
  row_net_salary :: "real option"
  row_cbhi :: "real option"
  row_take_home_2 :: "real option"

text \<open>\<^verbatim>\<open>x or 0\<close> for a numeric field.\<close>

definition or_zero :: "real option \<Rightarrow> real" where
  "or_zero x = (case x of None \<Rightarrow> 0 | Some v \<Rightarrow> v)"

text \<open>
  \<^verbatim>\<open>MonthlyPayroll.calculate_row\<close>: the row is returned updated; \<open>None\<close> only if the solver
  does not return.
\<close>

definition calculate_row :: "row \<Rightarrow> row option" where
  "calculate_row row =
     (let target_th = or_zero (row_take_home row)
      in if target_th \<le> 0 then
           Some (row\<lparr>row_gross_pay := Some 0,
                     row_paye := Some 0,
                     row_rssb_employer := Some 0,
                     row_rssb_employee := Some 0,
                     row_maternity_employer := Some 0,
                     row_maternity_employee := Some 0,
                     row_net_salary := Some 0,
                     row_cbhi := Some 0,
                     row_take_home_2 := Some 0\<rparr>)
         else if \<not> row_apply_tax row then
           Some (row\<lparr>row_gross_pay := Some target_th,
                     row_net_salary := Some target_th,
                     row_take_home_2 := Some target_th,
                     row_paye := Some 0,
                     row_rssb_employer := Some 0,
                     row_rssb_employee := Some 0,
                     row_maternity_employer := Some 0,
                     row_maternity_employee := Some 0,
                     row_cbhi := Some 0\<rparr>)
         else
           (case rwanda_gross_for_take_home target_th True 1.0 60 of
              None \<Rightarrow> None
            | Some vals \<Rightarrow>
                Some (row\<lparr>row_gross_pay := Some (of_int (gross_pay vals)),
                          row_paye := Some (paye vals),
                          row_rssb_employer := Some (rssb_employer vals),
                          row_rssb_employee := Some (rssb_employee vals),
                          row_maternity_employer := Some (maternity_employer vals),
                          row_maternity_employee := Some (maternity_employee vals),
                          row_net_salary := Some (net_salary vals),
                          row_cbhi := Some (cbhi vals),
                          row_take_home_2 := Some (take_home_2 vals)\<rparr>)))"

subsection \<open>Aggregation\<close>

text \<open>One entry of \<open>summary_by_type\<close>.\<close>

record category_summary =
  sum_employee_type :: string
  sum_employee_count :: int
  sum_advance_pay :: real
  sum_net_salary :: real
  sum_net_minus_advance :: real
  sum_cost_to_company :: real

definition types :: "string list" where
  "types = [''Academic'', ''Administrative'', ''Support'']"

definition empty_summary :: "string \<Rightarrow> category_summary" where
  "empty_summary t =
     \<lparr>sum_employee_type = t,
      sum_employee_count = 0,
      sum_advance_pay = 0,
      sum_net_salary = 0,
      sum_net_minus_advance = 0,
      sum_cost_to_company = 0\<rparr>"

text \<open>
  The dictionary \<open>summary\<close> is an association list in insertion order, which is the order
  \<^verbatim>\<open>summary.items()\<close> iterates in.
\<close>

definition init_summary :: "(string \<times> category_summary) list" where
  "init_summary = map (\<lambda>t. (t, empty_summary t)) types"

text \<open>The body of the loop over \<open>payroll_detail\<close>; a missing type is in no dictionary.\<close>

definition add_row :: "(string \<times> category_summary) list \<Rightarrow> row \<Rightarrow> (string \<times> category_summary) list" where
  "add_row summary row =
     (case row_employee_type row of
        None \<Rightarrow> summary
      | Some t \<Rightarrow>
          (case map_of summary t of
             None \<Rightarrow> summary
           | Some d \<Rightarrow>
               AList.update t
                 (d\<lparr>sum_employee_count := sum_employee_count d + 1,
                    sum_advance_pay := sum_advance_pay d + or_zero (row_take_home row),
                    sum_net_salary := sum_net_salary d + or_zero (row_net_salary row),
                    sum_cost_to_company := sum_cost_to_company d +
                      (or_zero (row_gross_pay row) + or_zero (row_rssb_employer row) +
                       or_zero (row_maternity_employer row))\<rparr>)
                 summary))"

text \<open>
  The inner loop \<^verbatim>\<open>for key in total\<close>: every numeric key of \<open>data\<close> is added;
  \<open>employee_type\<close> is a string and is skipped.
\<close>

definition add_to_total :: "category_summary \<Rightarrow> category_summary \<Rightarrow> category_summary" where
  "add_to_total tot data =
     tot\<lparr>sum_employee_count := sum_employee_count tot + sum_employee_count data,
           sum_advance_pay := sum_advance_pay tot + sum_advance_pay data,
           sum_net_salary := sum_net_salary tot + sum_net_salary data,
           sum_net_minus_advance := sum_net_minus_advance tot + sum_net_minus_advance data,
           sum_cost_to_company := sum_cost_to_company tot + sum_cost_to_company data\<rparr>"

text \<open>
  The loop over \<^verbatim>\<open>summary.items()\<close>: the state is the child table built so far and the
  running total (\<open>tot\<close>).
\<close>

fun summary_items ::
  "(string \<times> category_summary) list \<Rightarrow> category_summary list \<Rightarrow> category_summary \<Rightarrow>
   category_summary list \<times> category_summary" where
  "summary_items [] summary_by_type tot = (summary_by_type, tot)"
| "summary_items ((t, data) # rest) summary_by_type tot =
     (let data = data\<lparr>sum_net_minus_advance := sum_net_salary data - sum_advance_pay data\<rparr>
      in summary_items rest (summary_by_type @ [data]) (add_to_total tot data))"

text \<open>\<^verbatim>\<open>MonthlyPayroll.calculate_summary\<close>: the new content of \<open>summary_by_type\<close>.\<close>

definition calculate_summary :: "row list \<Rightarrow> category_summary list" where
  "calculate_summary payroll_detail =
     (let summary = foldl add_row init_summary payroll_detail;
          (summary_by_type, tot) = summary_items summary [] (empty_summary ''Total'');
          tot = tot\<lparr>sum_net_minus_advance := sum_net_salary tot - sum_advance_pay tot\<rparr>
      in summary_by_type @ [tot])"

text \<open>The single entry of \<open>monthly_payroll_totals\<close>.\<close>

record period_totals =
  tot_total_cost :: real
  tot_advance_pay :: real
  tot_net_salary :: real
  tot_net_minus_advance :: real
  tot_total_paye :: real
  tot_total_rssb :: real
  tot_total_maternity :: real
  tot_total_cbhi :: real
  tot_total_taxes :: real

text \<open>The body of the loop of \<^verbatim>\<open>calculate_totals\<close>, on the record of the running sums.\<close>

definition add_totals :: "period_totals \<Rightarrow> row \<Rightarrow> period_totals" where
  "add_totals acc row =
     acc\<lparr>tot_total_cost := tot_total_cost acc + or_zero (row_gross_pay row),
         tot_advance_pay := tot_advance_pay acc + or_zero (row_take_home row),
         tot_net_salary := tot_net_salary acc + or_zero (row_net_salary row),
         tot_total_paye := tot_total_paye acc + or_zero (row_paye row),
         tot_total_rssb := tot_total_rssb acc +
           (or_zero (row_rssb_employee row) + or_zero (row_rssb_employer row)),
         tot_total_maternity := tot_total_maternity acc +
           (or_zero (row_maternity_employee row) + or_zero (row_maternity_employer row)),
         tot_total_cbhi := tot_total_cbhi acc + or_zero (row_cbhi row)\<rparr>"

definition zero_totals :: period_totals where
  "zero_totals =
     \<lparr>tot_total_cost = 0,
      tot_advance_pay = 0,
      tot_net_salary = 0,
      tot_net_minus_advance = 0,
      tot_total_paye = 0,
      tot_total_rssb = 0,
      tot_total_maternity = 0,
      tot_total_cbhi = 0,
      tot_total_taxes = 0\<rparr>"

text \<open>\<^verbatim>\<open>MonthlyPayroll.calculate_totals\<close>: the record appended to the cleared table.\<close>

definition calculate_totals :: "row list \<Rightarrow> period_totals" where
  "calculate_totals payroll_detail =
     (let acc = foldl add_totals zero_totals payroll_detail;
          net_minus_advance = tot_net_salary acc - tot_advance_pay acc;
          total_taxes = tot_total_paye acc + tot_total_rssb acc + tot_total_maternity acc +
            tot_total_cbhi acc
      in acc\<lparr>tot_net_minus_advance := net_minus_advance, tot_total_taxes := total_taxes\<rparr>)"

subsection \<open>The deduction computation in double precision\<close>

text \<open>
  The amounts of the source are IEEE 754 binary64 numbers. This second model of
  \<^verbatim>\<open>_paye_rwanda\<close> and \<^verbatim>\<open>_calc_all\<close> rounds every constant, product, sum and difference
  to the nearest binary64 number, ties to the even significand. A binary64 number is a real
  \<open>m * 2 ^ (e - 52)\<close> with an integer \<open>m\<close> below \<open>2 ^ 53\<close>; below \<open>2 ^ -1022\<close> the
  spacing stays \<open>2 ^ -1074\<close> (gradual underflow). Overflow to infinity is not modelled: the
  exponent search stops at 1023, and the theorems keep the amounts below \<open>10 ^ 12\<close>.
\<close>

text \<open>The binary exponent \<open>e\<close> of \<open>x \<ge> 1\<close>, with \<open>2 ^ e \<le> x < 2 ^ (e + 1)\<close>, by halving.\<close>

fun exponent_up :: "nat \<Rightarrow> real \<Rightarrow> int" where
  "exponent_up 0 x = 0"
| "exponent_up (Suc n) x = (if 2 \<le> x then exponent_up n (x / 2) + 1 else 0)"

text \<open>The binary exponent of \<open>0 < x < 1\<close>, by doubling, no lower than the given bound.\<close>

fun exponent_down :: "nat \<Rightarrow> real \<Rightarrow> int" where
  "exponent_down 0 x = 0"
| "exponent_down (Suc n) x = (if x < 1 then exponent_down n (x * 2) - 1 else 0)"

definition exponent :: "real \<Rightarrow> int" where
  "exponent x = (if 1 \<le> \<bar>x\<bar> then exponent_up 1023 \<bar>x\<bar> else exponent_down 1022 \<bar>x\<bar>)"

text \<open>Rounding to binary64: the nearest multiple of the spacing at \<open>x\<close>, ties to even.\<close>

definition rd :: "real \<Rightarrow> real" where
  "rd x = (let q = 2 powi (exponent x - 52) in py_round (x / q) * q)"

text \<open>
  \<^verbatim>\<open>_paye_rwanda\<close>, every literal and operation rounded; the thresholds are exact. The
  argument is the double \<open>g\<close> of \<^verbatim>\<open>_calc_all\<close>, which \<^verbatim>\<open>float(gross or 0)\<close> returns as
  it is.
\<close>

definition paye_rwanda_double :: "real \<Rightarrow> real" where
  "paye_rwanda_double g =
     (if g \<le> 60000 then 0
      else if g \<le> 100000 then rd (rd 0.10 * rd (g - 60000))
      else if g \<le> 200000 then rd (4000 + rd (rd 0.20 * rd (g - 100000)))
      else rd (24000 + rd (rd 0.30 * rd (g - 200000))))"

text \<open>
  \<^verbatim>\<open>_calc_all\<close>, in the source's order of evaluation: \<^verbatim>\<open>float(gross or 0)\<close> rounds the
  argument, the sum of the five deductions is taken from left to right.
\<close>

definition calc_all_double :: "real \<Rightarrow> bool \<Rightarrow> real vals" where
  "calc_all_double gross apply_tax =
     (let g = rd gross;
          paye = (if apply_tax then paye_rwanda_double g else 0);
          rssb_empr = rd (rd 0.08 * g);
          rssb_empl = rd (rd 0.06 * g);
          mat_empr = rd (rd 0.006 * g);
          mat_empl = rd (rd 0.003 * g);
          net_salary =
            rd (g - rd (rd (rd (rd (paye + rssb_empr) + rssb_empl) + mat_empr) + mat_empl));
          cbhi = rd (rd 0.005 * net_salary);
          take_home_2 = rd (net_salary - cbhi)
      in \<lparr>paye = paye,
          rssb_employer = rssb_empr,
          rssb_employee = rssb_empl,
          maternity_employer = mat_empr,
          maternity_employee = mat_empl,
          net_salary = net_salary,
          cbhi = cbhi,
          take_home_2 = take_home_2,
          gross_pay = g\<rparr>)"

subsection \<open>Example rows\<close>

text \<open>A row as it arrives: type, target take-home and tax flag set, nothing computed yet.\<close>

definition new_row :: "string \<Rightarrow> real \<Rightarrow> bool \<Rightarrow> row" where
  "new_row t th tax =
     \<lparr>row_employee = None,
      row_employee_type = Some t,
      row_take_home = Some th,
      row_apply_tax = tax,
      row_gross_pay = None,
      row_paye = None,
      row_rssb_employer = None,
      row_rssb_employee = None,
      row_maternity_employer = None,
      row_maternity_employee = None,
      row_net_salary = None,
      row_cbhi = None,
      row_take_home_2 = None\<rparr>"

text \<open>A row with the tax flag off, as the tax-exempt branch of \<open>calculate_row\<close> leaves it.\<close>

definition exempt_row :: "string \<Rightarrow> real \<Rightarrow> row" where
  "exempt_row t th =
     \<lparr>row_employee = None,
      row_employee_type = Some t,
      row_take_home = Some th,
      row_apply_tax = False,
      row_gross_pay = Some th,
      row_paye = Some 0,
      row_rssb_employer = Some 0,
      row_rssb_employee = Some 0,
      row_maternity_employer = Some 0,
      row_maternity_employee = Some 0,
      row_net_salary = Some th,
      row_cbhi = Some 0,
      row_take_home_2 = Some th\<rparr>"

subsection \<open>Facts about the deduction computation\<close>

lemma paye_rwanda_nonneg: "0 \<le> paye_rwanda g"
  by (simp add: paye_rwanda_def)

lemma paye_rwanda_mono: "g \<le> h \<Longrightarrow> paye_rwanda g \<le> paye_rwanda h"
  unfolding paye_rwanda_def by (auto simp: field_simps)

lemma paye_rwanda_slope: "g \<le> h \<Longrightarrow> paye_rwanda h - paye_rwanda g \<le> 0.30 * (h - g)"
  unfolding paye_rwanda_def by (auto simp: field_simps)

lemma take_home_2_eq:
  "take_home_2 (calc_all g apply_tax) =
     0.995 * (0.851 * g - (if apply_tax then paye_rwanda g else 0))"
  by (simp add: calc_all_def Let_def)

lemma take_home_2_slope:
  assumes "g \<le> h"
  shows "0.548245 * (h - g) \<le> take_home_2 (calc_all h apply_tax) - take_home_2 (calc_all g apply_tax)"
proof (cases apply_tax)
  case True
  have eq: "take_home_2 (calc_all x apply_tax) = 0.995 * (0.851 * x - paye_rwanda x)" for x
    using True by (simp add: take_home_2_eq)
  from assms have "paye_rwanda h - paye_rwanda g \<le> 0.30 * (h - g)"
    by (rule paye_rwanda_slope)
  then show ?thesis
    unfolding eq by (simp add: field_simps)
next
  case False
  have eq: "take_home_2 (calc_all x apply_tax) = 0.995 * (0.851 * x)" for x
    using False by (simp add: take_home_2_eq)
  from assms show ?thesis
    unfolding eq by simp
qed

lemma take_home_2_strict_mono:
  assumes "g < h"
  shows "take_home_2 (calc_all g apply_tax) < take_home_2 (calc_all h apply_tax)"
proof -
  from assms have "0 < 0.548245 * (h - g)"
    by simp
  moreover from assms have
    "0.548245 * (h - g) \<le> take_home_2 (calc_all h apply_tax) - take_home_2 (calc_all g apply_tax)"
    by (intro take_home_2_slope) simp
  ultimately show ?thesis
    by linarith
qed

subsection \<open>The deduction record\<close>

text \<open>
  C4. For every gross \<open>g\<close> and every \<open>apply_tax\<close> flag the result of \<open>calc_all\<close> satisfies
  \<open>net_salary = gross_pay - (paye + rssb_employer + rssb_employee + maternity_employer +
  maternity_employee)\<close>, \<open>cbhi = 0.005 * net_salary\<close> and \<open>take_home_2 = net_salary - cbhi\<close>,
  the four contributions are 8%, 6%, 0.6% and 0.3% of \<open>g\<close>, and \<open>paye\<close> is the bracket tax
  of \<open>g\<close> (the table written out) when \<open>apply_tax\<close> holds and 0 otherwise.
\<close>

theorem calc_all_equations:
  fixes g :: real and apply_tax :: bool
  defines "r \<equiv> calc_all g apply_tax"
  shows "net_salary r = gross_pay r -
           (paye r + rssb_employer r + rssb_employee r + maternity_employer r + maternity_employee r)
       \<and> cbhi r = 0.005 * net_salary r
       \<and> take_home_2 r = net_salary r - cbhi r
       \<and> rssb_employer r = 0.08 * g
       \<and> rssb_employee r = 0.06 * g
       \<and> maternity_employer r = 0.006 * g
       \<and> maternity_employee r = 0.003 * g
       \<and> gross_pay r = g
       \<and> paye r =
           (if apply_tax
            then (if g \<le> 60000 then 0
                  else if g \<le> 100000 then 0.10 * (g - 60000)
                  else if g \<le> 200000 then 4000 + 0.20 * (g - 100000)
                  else 24000 + 0.30 * (g - 200000))
            else 0)"
  unfolding r_def calc_all_def Let_def paye_rwanda_def by simp

text \<open>
  C10. A negative gross is not clamped to 0: for \<open>g < 0\<close> the PAYE is 0, the four
  contributions are the stated proportions of \<open>g\<close> and so negative, the net salary and
  the CBHI levy are negative, and \<open>gross_pay\<close> is \<open>g\<close> itself.
\<close>

theorem calc_all_negative_gross:
  fixes g :: real and apply_tax :: bool
  assumes "g < 0"
  defines "r \<equiv> calc_all g apply_tax"
  shows "paye r = 0
       \<and> rssb_employer r = 0.08 * g \<and> rssb_employer r < 0
       \<and> rssb_employee r = 0.06 * g \<and> rssb_employee r < 0
       \<and> maternity_employer r = 0.006 * g \<and> maternity_employer r < 0
       \<and> maternity_employee r = 0.003 * g \<and> maternity_employee r < 0
       \<and> net_salary r = g - (0.08 * g + 0.06 * g + 0.006 * g + 0.003 * g) \<and> net_salary r < 0
       \<and> cbhi r = 0.005 * net_salary r \<and> cbhi r < 0
       \<and> take_home_2 r = net_salary r - cbhi r
       \<and> gross_pay r = g"
  using assms(1) unfolding r_def calc_all_def Let_def paye_rwanda_def by simp

theorem calc_all_negative_gross_witness:
  "(-1000 :: real) < 0
   \<and> paye (calc_all (-1000) True) = 0
   \<and> rssb_employer (calc_all (-1000) True) = -80
   \<and> rssb_employee (calc_all (-1000) True) = -60
   \<and> maternity_employer (calc_all (-1000) True) = -6
   \<and> maternity_employee (calc_all (-1000) True) = -3
   \<and> net_salary (calc_all (-1000) True) = -851
   \<and> cbhi (calc_all (-1000) True) = -4.255
   \<and> gross_pay (calc_all (-1000) True) = -1000"
  using calc_all_negative_gross [of "-1000" True] by simp

text \<open>
  In exact arithmetic, for each fixed \<open>apply_tax\<close> flag, \<open>take_home_2\<close> is non-decreasing in
  the gross and strictly increasing for gross greater than 0 (indeed everywhere).
\<close>

lemma take_home_2_monotone:
  fixes g h :: real and apply_tax :: bool
  shows "(g \<le> h \<longrightarrow> take_home_2 (calc_all g apply_tax) \<le> take_home_2 (calc_all h apply_tax))
       \<and> (0 < g \<and> g < h \<longrightarrow> take_home_2 (calc_all g apply_tax) < take_home_2 (calc_all h apply_tax))"
proof (intro conjI impI)
  assume "g \<le> h"
  then have "0 \<le> 0.548245 * (h - g)"
    by simp
  moreover from \<open>g \<le> h\<close> have
    "0.548245 * (h - g) \<le> take_home_2 (calc_all h apply_tax) - take_home_2 (calc_all g apply_tax)"
    by (rule take_home_2_slope)
  ultimately show "take_home_2 (calc_all g apply_tax) \<le> take_home_2 (calc_all h apply_tax)"
    by linarith
next
  assume "0 < g \<and> g < h"
  then show "take_home_2 (calc_all g apply_tax) < take_home_2 (calc_all h apply_tax)"
    by (simp add: take_home_2_strict_mono)
qed

subsection \<open>The whole-unit loop ends\<close>

lemma ceiling_measure_decreases:
  fixes a b :: real
  assumes "0 < b" and "a \<le> b - 1"
  shows "nat \<lceil>a\<rceil> < nat \<lceil>b\<rceil>"
proof -
  from assms(2) have "\<lceil>a\<rceil> \<le> \<lceil>b - 1\<rceil>"
    by (rule ceiling_mono)
  then have "\<lceil>a\<rceil> \<le> \<lceil>b\<rceil> - 1"
    by simp
  moreover from assms(1) have "0 < \<lceil>b\<rceil>"
    by simp
  ultimately show ?thesis
    by linarith
qed

lemma take_home_2_next_unit:
  "take_home_2 (calc_all (of_int g) apply_tax) + 1 / 2
     \<le> take_home_2 (calc_all (of_int (g + 1)) apply_tax)"
proof -
  have "0.548245 * (of_int (g + 1) - of_int g)
        \<le> take_home_2 (calc_all (of_int (g + 1)) apply_tax) - take_home_2 (calc_all (of_int g) apply_tax)"
    by (rule take_home_2_slope) simp
  then show ?thesis
    by simp
qed

text \<open>
  Each pass of the loop raises \<open>take_home_2\<close> by at least half a unit, so twice the
  distance to the target, rounded up, is a measure that decreases.
\<close>

lemma round_up_returns:
  "\<exists>g'. round_up T apply_tax g = Some g' \<and> g \<le> g'
        \<and> T \<le> take_home_2 (calc_all (of_int g') apply_tax)"
proof (induction "nat \<lceil>2 * (T - take_home_2 (calc_all (of_int g) apply_tax))\<rceil>"
    arbitrary: g rule: less_induct)
  case less
  show ?case
  proof (cases "take_home_2 (calc_all (of_int g) apply_tax) < T")
    case False
    then have "round_up T apply_tax g = Some g"
      by (subst round_up.simps) simp
    with False show ?thesis
      by simp
  next
    case True
    have step: "round_up T apply_tax g = round_up T apply_tax (g + 1)"
      using True by (subst round_up.simps) simp
    have "2 * (T - take_home_2 (calc_all (of_int (g + 1)) apply_tax))
          \<le> 2 * (T - take_home_2 (calc_all (of_int g) apply_tax)) - 1"
      using take_home_2_next_unit [of g apply_tax] by simp
    moreover have "0 < 2 * (T - take_home_2 (calc_all (of_int g) apply_tax))"
      using True by simp
    ultimately have "nat \<lceil>2 * (T - take_home_2 (calc_all (of_int (g + 1)) apply_tax))\<rceil>
                     < nat \<lceil>2 * (T - take_home_2 (calc_all (of_int g) apply_tax))\<rceil>"
      by (intro ceiling_measure_decreases)
    from less [OF this] obtain g' where
      "round_up T apply_tax (g + 1) = Some g'" "g + 1 \<le> g'"
      "T \<le> take_home_2 (calc_all (of_int g') apply_tax)"
      by blast
    with step show ?thesis
      by auto
  qed
qed

lemma gross_pay_round_fields: "gross_pay (round_fields v) = gross_pay v"
  by (simp add: round_fields_def)

lemma gross_pay_set_gross_pay: "gross_pay (set_gross_pay v g) = g"
  by (simp add: set_gross_pay_def)

lemma upper_bound_doubles: "\<exists>k\<le>n. upper_bound n T apply_tax hi = hi * 2 ^ k"
proof (induction n arbitrary: hi)
  case 0
  show ?case by simp
next
  case (Suc n)
  show ?case
  proof (cases "T \<le> take_home_2 (calc_all hi apply_tax)")
    case True
    then have "upper_bound (Suc n) T apply_tax hi = hi * 2 ^ 0"
      by simp
    then show ?thesis
      by blast
  next
    case False
    from Suc [of "hi * 2"] obtain k where
      "k \<le> n" "upper_bound n T apply_tax (hi * 2) = hi * 2 * 2 ^ k"
      by blast
    with False have "Suc k \<le> Suc n \<and> upper_bound (Suc n) T apply_tax hi = hi * 2 ^ Suc k"
      by simp
    then show ?thesis
      by blast
  qed
qed

subsection \<open>The summary dictionary and the totals\<close>

lemma add_row_keys: "map fst (add_row s r) = map fst s"
proof (cases "row_employee_type r")
  case None
  then show ?thesis by (simp add: add_row_def)
next
  case (Some t)
  show ?thesis
  proof (cases "map_of s t")
    case None
    with Some show ?thesis by (simp add: add_row_def)
  next
    case (Some d)
    then have "t \<in> fst ` set s"
      by (meson domI dom_map_of_conv_image_fst[THEN equalityD1] subsetD map_of_eq_None_iff option.distinct(1))
    with Some \<open>row_employee_type r = Some t\<close> show ?thesis
      by (simp add: add_row_def update_keys)
  qed
qed

lemma foldl_add_row_keys: "map fst (foldl add_row s rows) = map fst s"
  by (induction rows arbitrary: s) (simp_all add: add_row_keys)

lemma init_summary_keys: "map fst init_summary = types"
  by (simp add: init_summary_def comp_def)

lemma summary_keys: "map fst (foldl add_row init_summary rows) = types"
  by (simp add: foldl_add_row_keys init_summary_keys)

lemma add_row_unrecognised:
  assumes "row_employee_type r \<notin> Some ` fst ` set s"
  shows "add_row s r = s"
proof (cases "row_employee_type r")
  case None
  then show ?thesis by (simp add: add_row_def)
next
  case (Some t)
  with assms have "t \<notin> fst ` set s"
    by auto
  then have "map_of s t = None"
    by (simp add: map_of_eq_None_iff)
  with Some show ?thesis
    by (simp add: add_row_def)
qed

lemma foldl_add_row_drop:
  assumes "row_employee_type r \<notin> Some ` set types"
  shows "foldl add_row init_summary (xs @ r # ys) = foldl add_row init_summary (xs @ ys)"
proof -
  have "fst ` set (foldl add_row init_summary xs) = set types"
    using summary_keys [of xs] by (metis set_map)
  with assms have "add_row (foldl add_row init_summary xs) r = foldl add_row init_summary xs"
    by (intro add_row_unrecognised) simp
  then show ?thesis
    by simp
qed

lemma add_row_other_key:
  assumes "row_employee_type r \<noteq> Some t"
  shows "map_of (add_row s r) t = map_of s t"
  using assms by (auto simp: add_row_def update_conv' split: option.splits)

lemma foldl_add_row_other_key:
  assumes "\<forall>r\<in>set rows. row_employee_type r \<noteq> Some t"
  shows "map_of (foldl add_row s rows) t = map_of s t"
  using assms by (induction rows arbitrary: s) (simp_all add: add_row_other_key)

lemma add_row_employee_type:
  assumes "\<forall>t d. map_of s t = Some d \<longrightarrow> sum_employee_type d = t"
  shows "\<forall>t d. map_of (add_row s r) t = Some d \<longrightarrow> sum_employee_type d = t"
  using assms by (auto simp: add_row_def update_conv' split: option.splits if_splits)

lemma summary_items_eq:
  "summary_items s out tot =
     (out @ map (\<lambda>(t, data). data\<lparr>sum_net_minus_advance := sum_net_salary data - sum_advance_pay data\<rparr>) s,
      foldl add_to_total tot
        (map (\<lambda>(t, data). data\<lparr>sum_net_minus_advance := sum_net_salary data - sum_advance_pay data\<rparr>) s))"
  by (induction s out tot rule: summary_items.induct) (simp_all add: Let_def)

lemma foldl_add_to_total_type:
  "sum_employee_type (foldl add_to_total tot ds) = sum_employee_type tot"
  by (induction ds arbitrary: tot) (simp_all add: add_to_total_def)

lemma foldl_add_row_employee_type:
  assumes "\<forall>t d. map_of s t = Some d \<longrightarrow> sum_employee_type d = t"
  shows "\<forall>t d. map_of (foldl add_row s rows) t = Some d \<longrightarrow> sum_employee_type d = t"
  using assms
proof (induction rows arbitrary: s)
  case Nil
  then show ?case by simp
next
  case (Cons r rows)
  from Cons.prems have "\<forall>t d. map_of (add_row s r) t = Some d \<longrightarrow> sum_employee_type d = t"
    by (rule add_row_employee_type)
  then have "\<forall>t d. map_of (foldl add_row (add_row s r) rows) t = Some d \<longrightarrow> sum_employee_type d = t"
    by (rule Cons.IH)
  then show ?case
    by (simp only: foldl_Cons)
qed

lemma distinct_types: "distinct types"
  by (simp add: types_def)

lemma length_types: "length types = 3"
  by (simp add: types_def)

lemma map_of_init_summary:
  "map_of init_summary t = (if t \<in> set types then Some (empty_summary t) else None)"
  by (simp add: init_summary_def map_of_map_restrict restrict_map_def)

lemma init_summary_employee_type:
  "\<forall>t d. map_of init_summary t = Some d \<longrightarrow> sum_employee_type d = t"
  by (simp add: map_of_init_summary empty_summary_def split: if_splits)

lemma summary_length: "length (foldl add_row init_summary rows) = 3"
proof -
  have "length (map fst (foldl add_row init_summary rows)) = length types"
    by (simp only: summary_keys)
  then show ?thesis
    by (simp add: length_types)
qed

lemma summary_distinct: "distinct (map fst (foldl add_row init_summary rows))"
  by (simp only: summary_keys distinct_types)

lemma summary_entry_employee_type:
  assumes "(t, d) \<in> set (foldl add_row init_summary rows)"
  shows "sum_employee_type d = t"
proof -
  from assms have "map_of (foldl add_row init_summary rows) t = Some d"
    using summary_distinct [of rows] by simp
  with foldl_add_row_employee_type [OF init_summary_employee_type, of rows] show ?thesis
    by blast
qed

lemma summary_entry_untouched:
  assumes "i < 3" and "\<forall>r\<in>set rows. row_employee_type r \<noteq> Some (types ! i)"
  shows "foldl add_row init_summary rows ! i = (types ! i, empty_summary (types ! i))"
proof -
  let ?S = "foldl add_row init_summary rows"
  from assms(1) have i: "i < length ?S"
    by (simp add: summary_length)
  then have "map fst ?S ! i = fst (?S ! i)"
    by (rule nth_map)
  then have key: "fst (?S ! i) = types ! i"
    by (simp only: summary_keys)
  from i have "?S ! i \<in> set ?S"
    by (rule nth_mem)
  then have "(fst (?S ! i), snd (?S ! i)) \<in> set ?S"
    by simp
  then have "map_of ?S (fst (?S ! i)) = Some (snd (?S ! i))"
    using summary_distinct [of rows] by (simp only: map_of_eq_Some_iff)
  then have "map_of ?S (types ! i) = Some (snd (?S ! i))"
    by (simp only: key)
  moreover have "map_of ?S (types ! i) = map_of init_summary (types ! i)"
    using assms(2) by (rule foldl_add_row_other_key)
  moreover from assms(1) have "types ! i \<in> set types"
    by (simp add: length_types)
  then have "map_of init_summary (types ! i) = Some (empty_summary (types ! i))"
    by (simp add: map_of_init_summary)
  ultimately have "snd (?S ! i) = empty_summary (types ! i)"
    by simp
  with key show ?thesis
    by (simp add: prod_eq_iff)
qed

lemma calculate_summary_eq:
  "calculate_summary rows =
     map (\<lambda>(t, data). data\<lparr>sum_net_minus_advance := sum_net_salary data - sum_advance_pay data\<rparr>)
       (foldl add_row init_summary rows) @
     [(foldl add_to_total (empty_summary ''Total'')
         (map (\<lambda>(t, data). data\<lparr>sum_net_minus_advance := sum_net_salary data - sum_advance_pay data\<rparr>)
            (foldl add_row init_summary rows)))
      \<lparr>sum_net_minus_advance :=
         sum_net_salary (foldl add_to_total (empty_summary ''Total'')
           (map (\<lambda>(t, data). data\<lparr>sum_net_minus_advance := sum_net_salary data - sum_advance_pay data\<rparr>)
              (foldl add_row init_summary rows))) -
         sum_advance_pay (foldl add_to_total (empty_summary ''Total'')
           (map (\<lambda>(t, data). data\<lparr>sum_net_minus_advance := sum_net_salary data - sum_advance_pay data\<rparr>)
              (foldl add_row init_summary rows)))\<rparr>]"
  by (simp add: calculate_summary_def summary_items_eq Let_def)

lemma calculate_summary_types:
  "map sum_employee_type (calculate_summary rows) = types @ [''Total'']"
proof -
  have "map (\<lambda>x. sum_employee_type
          (case x of (t, data) \<Rightarrow> data\<lparr>sum_net_minus_advance := sum_net_salary data - sum_advance_pay data\<rparr>))
          (foldl add_row init_summary rows)
        = map fst (foldl add_row init_summary rows)"
    by (rule map_cong) (auto simp: summary_entry_employee_type)
  then show ?thesis
    by (simp add: calculate_summary_eq foldl_add_to_total_type summary_keys empty_summary_def comp_def)
qed

lemma calculate_summary_untouched:
  assumes "i < 3" and "\<forall>r\<in>set rows. row_employee_type r \<noteq> Some (types ! i)"
  shows "calculate_summary rows ! i = empty_summary (types ! i)"
proof -
  have "length (foldl add_row init_summary rows) = 3"
    by (rule summary_length)
  with assms(1) show ?thesis
    by (simp add: calculate_summary_eq nth_append summary_entry_untouched [OF assms] empty_summary_def)
qed

lemma foldl_add_totals:
  "tot_total_cost (foldl add_totals acc rows) =
     tot_total_cost acc + sum_list (map (\<lambda>r. or_zero (row_gross_pay r)) rows)
   \<and> tot_advance_pay (foldl add_totals acc rows) =
     tot_advance_pay acc + sum_list (map (\<lambda>r. or_zero (row_take_home r)) rows)
   \<and> tot_net_salary (foldl add_totals acc rows) =
     tot_net_salary acc + sum_list (map (\<lambda>r. or_zero (row_net_salary r)) rows)
   \<and> tot_total_paye (foldl add_totals acc rows) =
     tot_total_paye acc + sum_list (map (\<lambda>r. or_zero (row_paye r)) rows)
   \<and> tot_total_rssb (foldl add_totals acc rows) =
     tot_total_rssb acc +
       sum_list (map (\<lambda>r. or_zero (row_rssb_employee r) + or_zero (row_rssb_employer r)) rows)
   \<and> tot_total_maternity (foldl add_totals acc rows) =
     tot_total_maternity acc +
       sum_list (map (\<lambda>r. or_zero (row_maternity_employee r) + or_zero (row_maternity_employer r)) rows)
   \<and> tot_total_cbhi (foldl add_totals acc rows) =
     tot_total_cbhi acc + sum_list (map (\<lambda>r. or_zero (row_cbhi r)) rows)"
proof (induction rows arbitrary: acc)
  case Nil
  show ?case by simp
next
  case (Cons r rows)
  show ?case
    unfolding foldl_Cons list.map sum_list.Cons
    by (simp only: Cons.IH [of "add_totals acc r"]) (simp add: add_totals_def)
qed

lemma calculate_totals_fields:
  "tot_total_cost (calculate_totals rows) = sum_list (map (\<lambda>r. or_zero (row_gross_pay r)) rows)
   \<and> tot_advance_pay (calculate_totals rows) = sum_list (map (\<lambda>r. or_zero (row_take_home r)) rows)
   \<and> tot_net_salary (calculate_totals rows) = sum_list (map (\<lambda>r. or_zero (row_net_salary r)) rows)
   \<and> tot_total_paye (calculate_totals rows) = sum_list (map (\<lambda>r. or_zero (row_paye r)) rows)
   \<and> tot_total_rssb (calculate_totals rows) =
       sum_list (map (\<lambda>r. or_zero (row_rssb_employee r) + or_zero (row_rssb_employer r)) rows)
   \<and> tot_total_maternity (calculate_totals rows) =
       sum_list (map (\<lambda>r. or_zero (row_maternity_employee r) + or_zero (row_maternity_employer r)) rows)
   \<and> tot_total_cbhi (calculate_totals rows) = sum_list (map (\<lambda>r. or_zero (row_cbhi r)) rows)"
proof -
  have zero: "tot_total_cost zero_totals = 0" "tot_advance_pay zero_totals = 0"
    "tot_net_salary zero_totals = 0" "tot_total_paye zero_totals = 0"
    "tot_total_rssb zero_totals = 0" "tot_total_maternity zero_totals = 0"
    "tot_total_cbhi zero_totals = 0"
    by (simp_all add: zero_totals_def)
  from foldl_add_totals [of zero_totals rows] show ?thesis
    by (simp add: calculate_totals_def Let_def zero)
qed

text \<open>
  After \<open>n\<close> iterations at most, the bisection has halved the interval at most \<open>n\<close> times: the
  value it leaves in \<open>hi\<close> is a point \<open>lo + (hi - lo) * j / 2 ^ k\<close> of the \<open>k\<close>-th dyadic
  subdivision of the initial interval, for some \<open>k \<le> n\<close>.
\<close>

lemma binary_search_halves:
  "\<exists>k j. k \<le> n \<and> j \<le> 2 ^ k
         \<and> binary_search n T apply_tax tolerance lo hi = lo + (hi - lo) * real j / 2 ^ k"
proof (induction n arbitrary: lo hi)
  case 0
  have "(0 :: nat) \<le> 0 \<and> (1 :: nat) \<le> 2 ^ 0
        \<and> binary_search 0 T apply_tax tolerance lo hi = lo + (hi - lo) * real 1 / 2 ^ 0"
    by simp
  then show ?case
    by blast
next
  case (Suc n)
  define mid where "mid = (lo + hi) / 2"
  define th2 where "th2 = take_home_2 (calc_all mid apply_tax)"
  consider (stop) "\<bar>th2 - T\<bar> \<le> tolerance"
    | (up) "\<not> \<bar>th2 - T\<bar> \<le> tolerance" "th2 < T"
    | (down) "\<not> \<bar>th2 - T\<bar> \<le> tolerance" "\<not> th2 < T"
    by blast
  then show ?case
  proof cases
    case stop
    then have "binary_search (Suc n) T apply_tax tolerance lo hi = mid"
      by (simp add: Let_def mid_def th2_def)
    then have "(1 :: nat) \<le> Suc n \<and> (1 :: nat) \<le> 2 ^ 1
        \<and> binary_search (Suc n) T apply_tax tolerance lo hi = lo + (hi - lo) * real 1 / 2 ^ 1"
      by (simp add: mid_def field_simps)
    then show ?thesis
      by blast
  next
    case up
    then have step: "binary_search (Suc n) T apply_tax tolerance lo hi =
                     binary_search n T apply_tax tolerance mid hi"
      by (simp add: Let_def mid_def th2_def)
    from Suc [of mid hi] obtain k j where kj: "k \<le> n" "j \<le> 2 ^ k"
      and res: "binary_search n T apply_tax tolerance mid hi = mid + (hi - mid) * real j / 2 ^ k"
      by blast
    have "mid + (hi - mid) * real j / 2 ^ k = lo + (hi - lo) * real (2 ^ k + j) / 2 ^ Suc k"
      by (simp add: mid_def field_simps)
    with step res kj have "Suc k \<le> Suc n \<and> 2 ^ k + j \<le> 2 ^ Suc k
        \<and> binary_search (Suc n) T apply_tax tolerance lo hi =
            lo + (hi - lo) * real (2 ^ k + j) / 2 ^ Suc k"
      by simp
    then show ?thesis
      by blast
  next
    case down
    then have step: "binary_search (Suc n) T apply_tax tolerance lo hi =
                     binary_search n T apply_tax tolerance lo mid"
      by (simp add: Let_def mid_def th2_def)
    from Suc [of lo mid] obtain k j where kj: "k \<le> n" "j \<le> 2 ^ k"
      and res: "binary_search n T apply_tax tolerance lo mid = lo + (mid - lo) * real j / 2 ^ k"
      by blast
    have "lo + (mid - lo) * real j / 2 ^ k = lo + (hi - lo) * real j / 2 ^ Suc k"
      by (simp add: mid_def field_simps)
    with step res kj have "Suc k \<le> Suc n \<and> j \<le> 2 ^ Suc k
        \<and> binary_search (Suc n) T apply_tax tolerance lo hi =
            lo + (hi - lo) * real j / 2 ^ Suc k"
      by simp
    then show ?thesis
      by blast
  qed
qed

subsection \<open>The solver\<close>

text \<open>
  C2. For every target \<open>T > 0\<close>, every \<open>apply_tax\<close> flag, every tolerance and every
  \<open>max_iter\<close> (0 and negative values included), the solver returns, and the gross \<open>g\<close> it
  returns satisfies \<open>take_home_2 (calc_all g apply_tax) \<ge> T\<close>: the ceiling-and-increment step
  establishes this whatever the search phase left in \<open>hi\<close>.
\<close>

theorem solver_reaches_target:
  fixes T tolerance :: real and apply_tax :: bool and max_iter :: int
  assumes "0 < T"
  shows "\<exists>r. rwanda_gross_for_take_home T apply_tax tolerance max_iter = Some r
           \<and> T \<le> take_home_2 (calc_all (of_int (gross_pay r)) apply_tax)"
proof -
  define hi where
    "hi = binary_search (nat max_iter) T apply_tax tolerance 0
            (upper_bound 30 T apply_tax (max (T / 0.55) 200000))"
  obtain g where g: "round_up T apply_tax \<lceil>hi\<rceil> = Some g"
    and target: "T \<le> take_home_2 (calc_all (of_int g) apply_tax)"
    using round_up_returns [of T apply_tax "\<lceil>hi\<rceil>"] by blast
  from assms g have
    "rwanda_gross_for_take_home T apply_tax tolerance max_iter =
       Some (round_fields (set_gross_pay (calc_all (of_int g) apply_tax) g))"
    by (simp add: rwanda_gross_for_take_home_def Let_def hi_def)
  with target show ?thesis
    by (simp add: gross_pay_round_fields gross_pay_set_gross_pay)
qed

text \<open>
  The witness runs the solver with no bisection at all (\<open>tolerance = 0\<close>, \<open>max_iter = 0\<close>):
  the start value 200000 of \<open>hi\<close> is returned, and it meets the target 100000.
\<close>

theorem solver_reaches_target_witness:
  "(0 :: real) < 100000
   \<and> rwanda_gross_for_take_home 100000 True 0 0 =
       Some \<lparr>paye = 24000, rssb_employer = 16000, rssb_employee = 12000,
             maternity_employer = 1200, maternity_employee = 600, net_salary = 146200,
             cbhi = 731, take_home_2 = 145469, gross_pay = 200000\<rparr>
   \<and> (\<exists>r. rwanda_gross_for_take_home 100000 True 0 0 = Some r
          \<and> 100000 \<le> take_home_2 (calc_all (of_int (gross_pay r)) True))"
proof -
  have "rwanda_gross_for_take_home 100000 True 0 0 =
       Some \<lparr>paye = 24000, rssb_employer = 16000, rssb_employee = 12000,
             maternity_employer = 1200, maternity_employee = 600, net_salary = 146200,
             cbhi = 731, take_home_2 = 145469, gross_pay = 200000\<rparr>"
    by code_simp
  moreover have "(0 :: real) < 100000"
    by simp
  moreover note solver_reaches_target [OF \<open>(0 :: real) < 100000\<close>, of True 0 0]
  ultimately show ?thesis
    by blast
qed

text \<open>
  C5. For every target, \<open>apply_tax\<close> flag, tolerance and \<open>max_iter\<close> the solver returns. The
  doubling loop doubles \<open>hi\<close> at most 30 times; the bisection halves the interval at most
  \<open>max_iter\<close> times (its result is a point of a dyadic subdivision of depth \<open>k \<le> max_iter\<close>);
  the whole-unit loop, which has no bound in the source, ends because \<open>take_home_2\<close> grows
  by at least half a unit per unit of gross. In the solver itself, for a positive target:
  the gross returned is the one the whole-unit loop reaches from the ceiling of
  \<open>max (T / 0.55) 200000 * 2 ^ d * j / 2 ^ k\<close>, with \<open>d \<le> 30\<close> doublings and \<open>k \<le> max_iter\<close>
  halvings.
\<close>

theorem solver_returns:
  fixes take_home tolerance lo hi :: real and apply_tax :: bool and max_iter g :: int
  shows "(\<exists>r. rwanda_gross_for_take_home take_home apply_tax tolerance max_iter = Some r)
       \<and> (\<exists>k\<le>30. upper_bound 30 take_home apply_tax hi = hi * 2 ^ k)
       \<and> (\<exists>k j. k \<le> nat max_iter \<and> j \<le> 2 ^ k
              \<and> binary_search (nat max_iter) take_home apply_tax tolerance lo hi =
                  lo + (hi - lo) * real j / 2 ^ k)
       \<and> (\<exists>g'. round_up take_home apply_tax g = Some g' \<and> g \<le> g')
       \<and> (0 < take_home \<longrightarrow>
            (\<exists>d k j g'. d \<le> 30 \<and> k \<le> nat max_iter \<and> j \<le> 2 ^ k
               \<and> round_up take_home apply_tax
                     \<lceil>max (take_home / 0.55) 200000 * 2 ^ d * real j / 2 ^ k\<rceil> = Some g'
               \<and> rwanda_gross_for_take_home take_home apply_tax tolerance max_iter =
                     Some (round_fields (set_gross_pay (calc_all (of_int g') apply_tax) g'))))"
proof (intro conjI impI)
  show "\<exists>r. rwanda_gross_for_take_home take_home apply_tax tolerance max_iter = Some r"
  proof (cases "take_home \<le> 0")
    case True
    then show ?thesis
      by (simp add: rwanda_gross_for_take_home_def)
  next
    case False
    define h where
      "h = binary_search (nat max_iter) take_home apply_tax tolerance 0
              (upper_bound 30 take_home apply_tax (max (take_home / 0.55) 200000))"
    obtain g where "round_up take_home apply_tax \<lceil>h\<rceil> = Some g"
      using round_up_returns [of take_home apply_tax "\<lceil>h\<rceil>"] by blast
    with False show ?thesis
      by (simp add: rwanda_gross_for_take_home_def Let_def h_def)
  qed
next
  show "\<exists>k\<le>30. upper_bound 30 take_home apply_tax hi = hi * 2 ^ k"
    by (rule upper_bound_doubles)
next
  show "\<exists>k j. k \<le> nat max_iter \<and> j \<le> 2 ^ k
              \<and> binary_search (nat max_iter) take_home apply_tax tolerance lo hi =
                  lo + (hi - lo) * real j / 2 ^ k"
    by (rule binary_search_halves)
next
  show "\<exists>g'. round_up take_home apply_tax g = Some g' \<and> g \<le> g'"
    using round_up_returns [of take_home apply_tax g] by blast
next
  assume pos: "0 < take_home"
  define hi0 :: real where "hi0 = max (take_home / 0.55) 200000"
  obtain d where d: "d \<le> 30" "upper_bound 30 take_home apply_tax hi0 = hi0 * 2 ^ d"
    using upper_bound_doubles [of 30 take_home apply_tax hi0] by blast
  obtain k j where kj: "k \<le> nat max_iter" "j \<le> 2 ^ k"
    and bs: "binary_search (nat max_iter) take_home apply_tax tolerance 0 (hi0 * 2 ^ d) =
             0 + (hi0 * 2 ^ d - 0) * real j / 2 ^ k"
    using binary_search_halves [of "nat max_iter" take_home apply_tax tolerance 0 "hi0 * 2 ^ d"]
    by blast
  obtain g' where g': "round_up take_home apply_tax \<lceil>hi0 * 2 ^ d * real j / 2 ^ k\<rceil> = Some g'"
    using round_up_returns [of take_home apply_tax "\<lceil>hi0 * 2 ^ d * real j / 2 ^ k\<rceil>"] by blast
  from bs have "binary_search (nat max_iter) take_home apply_tax tolerance 0 (hi0 * 2 ^ d) =
                hi0 * 2 ^ d * real j / 2 ^ k"
    by simp
  then have search: "\<lceil>binary_search (nat max_iter) take_home apply_tax tolerance 0
                       (upper_bound 30 take_home apply_tax hi0)\<rceil> =
                     \<lceil>hi0 * 2 ^ d * real j / 2 ^ k\<rceil>"
    by (simp only: d(2))
  from pos have "rwanda_gross_for_take_home take_home apply_tax tolerance max_iter =
      (case round_up take_home apply_tax
              \<lceil>binary_search (nat max_iter) take_home apply_tax tolerance 0
                 (upper_bound 30 take_home apply_tax hi0)\<rceil> of
         None \<Rightarrow> None
       | Some g \<Rightarrow> Some (round_fields (set_gross_pay (calc_all (of_int g) apply_tax) g)))"
    unfolding hi0_def by (simp add: rwanda_gross_for_take_home_def Let_def)
  then have "rwanda_gross_for_take_home take_home apply_tax tolerance max_iter =
      Some (round_fields (set_gross_pay (calc_all (of_int g') apply_tax) g'))"
    by (simp only: search g' option.case)
  with d(1) kj g' show "\<exists>d k j g'. d \<le> 30 \<and> k \<le> nat max_iter \<and> j \<le> 2 ^ k
               \<and> round_up take_home apply_tax
                     \<lceil>max (take_home / 0.55) 200000 * 2 ^ d * real j / 2 ^ k\<rceil> = Some g'
               \<and> rwanda_gross_for_take_home take_home apply_tax tolerance max_iter =
                     Some (round_fields (set_gross_pay (calc_all (of_int g') apply_tax) g'))"
    unfolding hi0_def by blast
qed

theorem solver_returns_witness:
  "(0 :: real) < 31752
   \<and> (\<exists>d k j g'. d \<le> 30 \<and> k \<le> nat 60 \<and> j \<le> 2 ^ k
         \<and> round_up 31752 True \<lceil>max (31752 / 0.55) 200000 * 2 ^ d * real j / 2 ^ k\<rceil> = Some g'
         \<and> rwanda_gross_for_take_home 31752 True 1 60 =
               Some (round_fields (set_gross_pay (calc_all (of_int g') True) g')))
   \<and> binary_search 60 31752 True 1 0 200000 = 0 + (200000 - 0) * real 3 / 2 ^ 4
   \<and> upper_bound 30 31752 True 200000 = 200000 * 2 ^ 0"
proof -
  have "binary_search 60 31752 True 1 0 200000 = 0 + (200000 - 0) * real 3 / 2 ^ 4"
    by code_simp
  moreover have "upper_bound 30 31752 True 200000 = 200000 * 2 ^ 0"
    by code_simp
  moreover have "(0 :: real) < 31752"
    by simp
  moreover note solver_returns [of 31752 True 1 60]
  ultimately show ?thesis
    by blast
qed

text \<open>
  C7. For every target \<open>T \<le> 0\<close> the solver returns at once, whatever the tolerance and
  \<open>max_iter\<close>: every field of the result is 0, \<open>gross_pay\<close> is the integer 0, and the
  result is \<open>calc_all 0 apply_tax\<close> (itself all zero) after rounding.
\<close>

theorem solver_nonpositive_target:
  fixes T tolerance :: real and apply_tax :: bool and max_iter :: int
  assumes "T \<le> 0"
  shows "rwanda_gross_for_take_home T apply_tax tolerance max_iter =
           Some \<lparr>paye = 0, rssb_employer = 0, rssb_employee = 0, maternity_employer = 0,
                 maternity_employee = 0, net_salary = 0, cbhi = 0, take_home_2 = 0,
                 gross_pay = (0 :: int)\<rparr>
       \<and> rwanda_gross_for_take_home T apply_tax tolerance max_iter =
           Some (set_gross_pay (round_all (calc_all 0 apply_tax)) 0)
       \<and> calc_all 0 apply_tax =
           \<lparr>paye = 0, rssb_employer = 0, rssb_employee = 0, maternity_employer = 0,
            maternity_employee = 0, net_salary = 0, cbhi = 0, take_home_2 = 0,
            gross_pay = (0 :: real)\<rparr>"
proof -
  have zero: "calc_all 0 apply_tax =
           \<lparr>paye = 0, rssb_employer = 0, rssb_employee = 0, maternity_employer = 0,
            maternity_employee = 0, net_salary = 0, cbhi = 0, take_home_2 = 0,
            gross_pay = (0 :: real)\<rparr>"
    by (simp add: calc_all_def paye_rwanda_def)
  have round: "py_round 0 = 0"
    by (simp add: py_round_def)
  from assms have "rwanda_gross_for_take_home T apply_tax tolerance max_iter =
           Some (set_gross_pay (round_all (calc_all 0 apply_tax)) 0)"
    by (simp add: rwanda_gross_for_take_home_def)
  then show ?thesis
    by (simp add: zero round round_all_def set_gross_pay_def)
qed

theorem solver_nonpositive_target_witness:
  "(-5 :: real) \<le> 0
   \<and> rwanda_gross_for_take_home (-5) True 1 60 =
       Some \<lparr>paye = 0, rssb_employer = 0, rssb_employee = 0, maternity_employer = 0,
             maternity_employee = 0, net_salary = 0, cbhi = 0, take_home_2 = 0,
             gross_pay = (0 :: int)\<rparr>"
  using solver_nonpositive_target [of "-5" True 1 60] by simp

text \<open>
  C1. The docstring of the solver promises the smallest whole-unit gross whose
  \<open>take_home_2\<close> reaches the target. With the default tolerance 1 and 60 iterations the
  bisection for the target 31752 stops at \<open>mid = 37500\<close>, where \<open>take_home_2\<close> is
  31752.9375, within the tolerance above the target; 37500 is returned although the gross
  37499 already yields 31752.090755.
\<close>

theorem solver_not_minimal:
  "rwanda_gross_for_take_home 31752 True 1 60 =
     Some \<lparr>paye = 0, rssb_employer = 3000, rssb_employee = 2250, maternity_employer = 225,
           maternity_employee = 112, net_salary = 31912, cbhi = 160, take_home_2 = 31753,
           gross_pay = 37500\<rparr>
   \<and> \<not> take_home_2 (calc_all (of_int (37500 - 1)) True) < 31752
   \<and> take_home_2 (calc_all (of_int (37500 - 1)) True) = 31752.090755"
proof (intro conjI)
  show "rwanda_gross_for_take_home 31752 True 1 60 =
     Some \<lparr>paye = 0, rssb_employer = 3000, rssb_employee = 2250, maternity_employer = 225,
           maternity_employee = 112, net_salary = 31912, cbhi = 160, take_home_2 = 31753,
           gross_pay = 37500\<rparr>"
    by code_simp
next
  show "\<not> take_home_2 (calc_all (of_int (37500 - 1)) True) < 31752"
    by (simp add: calc_all_def paye_rwanda_def)
next
  show "take_home_2 (calc_all (of_int (37500 - 1)) True) = 31752.090755"
    by (simp add: calc_all_def paye_rwanda_def)
qed

subsection \<open>Row processing and aggregation\<close>

text \<open>
  C6. For every row whose target take-home is greater than 0 and whose \<open>apply_tax\<close> flag is
  false, \<open>calculate_row\<close> sets \<open>gross_pay\<close>, \<open>net_salary\<close> and \<open>take_home_2\<close> to the target
  and \<open>paye\<close>, \<open>rssb_employer\<close>, \<open>rssb_employee\<close>, \<open>maternity_employer\<close>,
  \<open>maternity_employee\<close> and \<open>cbhi\<close> to 0, leaving the other fields as they were. The deduction
  computation is not used: at the same gross it would give a smaller net salary.
\<close>

theorem calculate_row_tax_exempt:
  fixes row :: row
  assumes "0 < or_zero (row_take_home row)" and "\<not> row_apply_tax row"
  shows "calculate_row row =
           Some (row\<lparr>row_gross_pay := Some (or_zero (row_take_home row)),
                     row_net_salary := Some (or_zero (row_take_home row)),
                     row_take_home_2 := Some (or_zero (row_take_home row)),
                     row_paye := Some 0,
                     row_rssb_employer := Some 0,
                     row_rssb_employee := Some 0,
                     row_maternity_employer := Some 0,
                     row_maternity_employee := Some 0,
                     row_cbhi := Some 0\<rparr>)
       \<and> net_salary (calc_all (or_zero (row_take_home row)) False) < or_zero (row_take_home row)"
proof
  from assms show "calculate_row row =
           Some (row\<lparr>row_gross_pay := Some (or_zero (row_take_home row)),
                     row_net_salary := Some (or_zero (row_take_home row)),
                     row_take_home_2 := Some (or_zero (row_take_home row)),
                     row_paye := Some 0,
                     row_rssb_employer := Some 0,
                     row_rssb_employee := Some 0,
                     row_maternity_employer := Some 0,
                     row_maternity_employee := Some 0,
                     row_cbhi := Some 0\<rparr>)"
    by (simp add: calculate_row_def Let_def)
next
  from assms(1) show
    "net_salary (calc_all (or_zero (row_take_home row)) False) < or_zero (row_take_home row)"
    by (simp add: calc_all_def Let_def)
qed

theorem calculate_row_tax_exempt_witness:
  "0 < or_zero (row_take_home (new_row ''Academic'' 80000 False))
   \<and> \<not> row_apply_tax (new_row ''Academic'' 80000 False)
   \<and> calculate_row (new_row ''Academic'' 80000 False) = Some (exempt_row ''Academic'' 80000)"
  using calculate_row_tax_exempt [of "new_row ''Academic'' 80000 False"]
  by (simp add: new_row_def exempt_row_def or_zero_def)

text \<open>
  C8. A row whose \<open>employee_type\<close> is none of Academic, Administrative, Support (a missing
  type included) contributes nothing to the category summary: with or without it, at any
  position of the list, all four records (the Total record included) are the same. Its
  \<open>gross_pay\<close>, \<open>take_home\<close>, \<open>net_salary\<close>, \<open>paye\<close>, RSSB, maternity and \<open>cbhi\<close> values are
  still added to the period totals.
\<close>

theorem unrecognised_row_aggregation:
  fixes r :: row and xs ys :: "row list"
  assumes "row_employee_type r \<notin> {Some ''Academic'', Some ''Administrative'', Some ''Support''}"
  shows "calculate_summary (xs @ r # ys) = calculate_summary (xs @ ys)
       \<and> tot_total_cost (calculate_totals (xs @ r # ys)) =
           tot_total_cost (calculate_totals (xs @ ys)) + or_zero (row_gross_pay r)
       \<and> tot_advance_pay (calculate_totals (xs @ r # ys)) =
           tot_advance_pay (calculate_totals (xs @ ys)) + or_zero (row_take_home r)
       \<and> tot_net_salary (calculate_totals (xs @ r # ys)) =
           tot_net_salary (calculate_totals (xs @ ys)) + or_zero (row_net_salary r)
       \<and> tot_total_paye (calculate_totals (xs @ r # ys)) =
           tot_total_paye (calculate_totals (xs @ ys)) + or_zero (row_paye r)
       \<and> tot_total_rssb (calculate_totals (xs @ r # ys)) =
           tot_total_rssb (calculate_totals (xs @ ys)) +
             (or_zero (row_rssb_employee r) + or_zero (row_rssb_employer r))
       \<and> tot_total_maternity (calculate_totals (xs @ r # ys)) =
           tot_total_maternity (calculate_totals (xs @ ys)) +
             (or_zero (row_maternity_employee r) + or_zero (row_maternity_employer r))
       \<and> tot_total_cbhi (calculate_totals (xs @ r # ys)) =
           tot_total_cbhi (calculate_totals (xs @ ys)) + or_zero (row_cbhi r)"
proof -
  from assms have "row_employee_type r \<notin> Some ` set types"
    by (simp add: types_def)
  then have "foldl add_row init_summary (xs @ r # ys) = foldl add_row init_summary (xs @ ys)"
    by (rule foldl_add_row_drop)
  then have "calculate_summary (xs @ r # ys) = calculate_summary (xs @ ys)"
    by (simp only: calculate_summary_def)
  then show ?thesis
    by (simp add: calculate_totals_fields)
qed

theorem unrecognised_row_aggregation_witness:
  "row_employee_type (exempt_row ''Contractor'' 4000)
     \<notin> {Some ''Academic'', Some ''Administrative'', Some ''Support''}
   \<and> calculate_summary
       [exempt_row ''Academic'' 1000, exempt_row ''Administrative'' 2000,
        exempt_row ''Support'' 3000, exempt_row ''Contractor'' 4000] =
     calculate_summary
       [exempt_row ''Academic'' 1000, exempt_row ''Administrative'' 2000,
        exempt_row ''Support'' 3000]
   \<and> map sum_employee_count
       (calculate_summary
         [exempt_row ''Academic'' 1000, exempt_row ''Administrative'' 2000,
          exempt_row ''Support'' 3000, exempt_row ''Contractor'' 4000]) = [1, 1, 1, 3]
   \<and> tot_total_cost
       (calculate_totals
         [exempt_row ''Academic'' 1000, exempt_row ''Administrative'' 2000,
          exempt_row ''Support'' 3000, exempt_row ''Contractor'' 4000]) = 10000"
proof -
  have hyp: "row_employee_type (exempt_row ''Contractor'' 4000)
     \<notin> {Some ''Academic'', Some ''Administrative'', Some ''Support''}"
    by (simp add: exempt_row_def)
  have counts: "map sum_employee_count
       (calculate_summary
         [exempt_row ''Academic'' 1000, exempt_row ''Administrative'' 2000,
          exempt_row ''Support'' 3000, exempt_row ''Contractor'' 4000]) = [1, 1, 1, 3]"
    by code_simp
  have cost: "tot_total_cost
       (calculate_totals
         [exempt_row ''Academic'' 1000, exempt_row ''Administrative'' 2000,
          exempt_row ''Support'' 3000, exempt_row ''Contractor'' 4000]) = 10000"
    by code_simp
  from unrecognised_row_aggregation [OF hyp,
      of "[exempt_row ''Academic'' 1000, exempt_row ''Administrative'' 2000, exempt_row ''Support'' 3000]" "[]"]
  have "calculate_summary
       [exempt_row ''Academic'' 1000, exempt_row ''Administrative'' 2000,
        exempt_row ''Support'' 3000, exempt_row ''Contractor'' 4000] =
     calculate_summary
       [exempt_row ''Academic'' 1000, exempt_row ''Administrative'' 2000,
        exempt_row ''Support'' 3000]"
    by simp
  with hyp counts cost show ?thesis
    by blast
qed

text \<open>
  C9. For every list of rows, the empty list included, \<open>calculate_summary\<close> yields exactly
  four records, in the order Academic, Administrative, Support, Total; a category no row
  belongs to still has its record, with \<open>employee_count\<close> and every amount equal to 0.
\<close>

theorem calculate_summary_shape:
  "map sum_employee_type (calculate_summary rows) =
     [''Academic'', ''Administrative'', ''Support'', ''Total'']
   \<and> length (calculate_summary rows) = 4
   \<and> ((\<forall>r\<in>set rows. row_employee_type r \<noteq> Some ''Academic'') \<longrightarrow>
        calculate_summary rows ! 0 = empty_summary ''Academic'')
   \<and> ((\<forall>r\<in>set rows. row_employee_type r \<noteq> Some ''Administrative'') \<longrightarrow>
        calculate_summary rows ! 1 = empty_summary ''Administrative'')
   \<and> ((\<forall>r\<in>set rows. row_employee_type r \<noteq> Some ''Support'') \<longrightarrow>
        calculate_summary rows ! 2 = empty_summary ''Support'')
   \<and> calculate_summary [] =
       [empty_summary ''Academic'', empty_summary ''Administrative'', empty_summary ''Support'',
        empty_summary ''Total'']"
proof (intro conjI impI)
  show names: "map sum_employee_type (calculate_summary rows) =
     [''Academic'', ''Administrative'', ''Support'', ''Total'']"
    by (simp add: calculate_summary_types types_def)
  from arg_cong [OF names, of length] show "length (calculate_summary rows) = 4"
    by simp
next
  assume "\<forall>r\<in>set rows. row_employee_type r \<noteq> Some ''Academic''"
  then show "calculate_summary rows ! 0 = empty_summary ''Academic''"
    using calculate_summary_untouched [of 0 rows] by (simp add: types_def)
next
  assume "\<forall>r\<in>set rows. row_employee_type r \<noteq> Some ''Administrative''"
  then show "calculate_summary rows ! 1 = empty_summary ''Administrative''"
    using calculate_summary_untouched [of 1 rows] by (simp add: types_def)
next
  assume "\<forall>r\<in>set rows. row_employee_type r \<noteq> Some ''Support''"
  then show "calculate_summary rows ! 2 = empty_summary ''Support''"
    using calculate_summary_untouched [of 2 rows] by (simp add: types_def)
next
  show "calculate_summary [] =
       [empty_summary ''Academic'', empty_summary ''Administrative'', empty_summary ''Support'',
        empty_summary ''Total'']"
    by (simp add: calculate_summary_eq init_summary_def types_def empty_summary_def add_to_total_def)
qed

theorem calculate_summary_shape_witness:
  "map sum_employee_type (calculate_summary [exempt_row ''Academic'' 1000]) =
     [''Academic'', ''Administrative'', ''Support'', ''Total'']
   \<and> calculate_summary [exempt_row ''Academic'' 1000] ! 1 = empty_summary ''Administrative''
   \<and> calculate_summary [exempt_row ''Academic'' 1000] ! 2 = empty_summary ''Support''
   \<and> sum_employee_count (calculate_summary [exempt_row ''Academic'' 1000] ! 0) = 1"
proof -
  have "sum_employee_count (calculate_summary [exempt_row ''Academic'' 1000] ! 0) = 1"
    by code_simp
  with calculate_summary_shape [of "[exempt_row ''Academic'' 1000]"] show ?thesis
    by (simp add: exempt_row_def)
qed

subsection \<open>Rounding to binary64\<close>

lemma py_round_error: "\<bar>py_round m - m\<bar> \<le> 1 / 2"
proof -
  have "of_int \<lfloor>m\<rfloor> \<le> m" and "m < of_int \<lfloor>m\<rfloor> + 1"
    by linarith+
  then show ?thesis
    unfolding py_round_def Let_def by (auto simp: abs_le_iff)
qed

lemma exponent_up_le: "1 \<le> x \<Longrightarrow> 2 powi exponent_up n x \<le> x"
proof (induction n arbitrary: x)
  case 0
  then show ?case by simp
next
  case (Suc n)
  show ?case
  proof (cases "2 \<le> x")
    case True
    then have "2 powi exponent_up n (x / 2) \<le> x / 2"
      by (intro Suc.IH) simp
    moreover have "(2 :: real) powi (exponent_up n (x / 2) + 1) = 2 powi exponent_up n (x / 2) * 2"
      by (rule power_int_add_1) simp
    ultimately show ?thesis
      using True by simp
  next
    case False
    with Suc.prems show ?thesis by simp
  qed
qed

lemma exponent_down_ge1: "1 \<le> x \<Longrightarrow> exponent_down n x = 0"
  by (cases n) simp_all

lemma exponent_down_le:
  "0 < x \<Longrightarrow> x < 1 \<Longrightarrow> 2 powi exponent_down n x \<le> x \<or> exponent_down n x = - int n"
proof (induction n arbitrary: x)
  case 0
  then show ?case by simp
next
  case (Suc n)
  have step: "exponent_down (Suc n) x = exponent_down n (x * 2) - 1"
    using Suc.prems by simp
  have half: "(2 :: real) powi (e - 1) = 2 powi e / 2" for e :: int
    by (subst power_int_diff) simp_all
  show ?case
  proof (cases "x * 2 < 1")
    case True
    with Suc.prems have "2 powi exponent_down n (x * 2) \<le> x * 2 \<or> exponent_down n (x * 2) = - int n"
      by (intro Suc.IH) simp_all
    then show ?thesis
    proof
      assume "2 powi exponent_down n (x * 2) \<le> x * 2"
      then have "2 powi (exponent_down n (x * 2) - 1) \<le> x"
        by (simp add: half)
      then show ?thesis
        by (simp only: step) simp
    next
      assume "exponent_down n (x * 2) = - int n"
      then show ?thesis
        by (simp only: step) simp
    qed
  next
    case False
    then have "exponent_down n (x * 2) = 0"
      by (intro exponent_down_ge1) simp
    with False have "2 powi exponent_down (Suc n) x \<le> x"
      by (simp only: step) (simp add: half)
    then show ?thesis ..
  qed
qed

lemma rd_quantum:
  "\<bar>rd x - x\<bar> \<le> 2 powi (exponent x - 52) / 2"
proof -
  define q :: real where "q = 2 powi (exponent x - 52)"
  have q: "0 < q"
    by (simp add: q_def)
  have "rd x - x = (py_round (x / q) - x / q) * q"
    using q by (simp add: rd_def Let_def q_def [symmetric] field_simps)
  then have "\<bar>rd x - x\<bar> = \<bar>py_round (x / q) - x / q\<bar> * q"
    using q by (simp add: abs_mult)
  also have "\<dots> \<le> 1 / 2 * q"
    using q py_round_error [of "x / q"] by (intro mult_right_mono) simp_all
  finally show ?thesis
    by (simp add: q_def)
qed

lemma rd_zero: "rd 0 = 0"
  by (simp add: rd_def Let_def py_round_def)

lemma quantum_bound:
  assumes "x \<noteq> 0"
  shows "(2 :: real) powi (exponent x - 52) \<le> \<bar>x\<bar> / 2 ^ 52
       \<or> (2 :: real) powi (exponent x - 52) = 2 powi (- 1074)"
proof -
  have split: "(2 :: real) powi (e - 52) = 2 powi e / 2 ^ 52" for e :: int
    by (subst power_int_diff) simp_all
  show ?thesis
  proof (cases "1 \<le> \<bar>x\<bar>")
    case True
    then have "2 powi exponent_up 1023 \<bar>x\<bar> \<le> \<bar>x\<bar>"
      by (rule exponent_up_le)
    with True have "2 powi (exponent x - 52) \<le> \<bar>x\<bar> / 2 ^ 52"
      by (simp add: exponent_def split divide_right_mono)
    then show ?thesis ..
  next
    case False
    with assms have "0 < \<bar>x\<bar>" "\<bar>x\<bar> < 1"
      by simp_all
    then have "2 powi exponent_down 1022 \<bar>x\<bar> \<le> \<bar>x\<bar> \<or> exponent_down 1022 \<bar>x\<bar> = - int 1022"
      by (rule exponent_down_le)
    then show ?thesis
    proof
      assume "2 powi exponent_down 1022 \<bar>x\<bar> \<le> \<bar>x\<bar>"
      with False have "2 powi (exponent x - 52) \<le> \<bar>x\<bar> / 2 ^ 52"
        by (simp add: exponent_def split divide_right_mono)
      then show ?thesis ..
    next
      assume "exponent_down 1022 \<bar>x\<bar> = - int 1022"
      with False have "exponent x - 52 = - 1074"
        by (simp add: exponent_def)
      then have "(2 :: real) powi (exponent x - 52) = 2 powi (- 1074)"
        by (rule arg_cong)
      then show ?thesis ..
    qed
  qed
qed

lemma rd_near:
  assumes "\<bar>x\<bar> \<le> 2 ^ 41"
  shows "\<bar>rd x - x\<bar> \<le> 1 / 2048"
proof (cases "x = 0")
  case True
  then show ?thesis
    by (simp add: rd_zero)
next
  case False
  have small: "(2 :: real) powi (- 1074) \<le> 2 powi (- 10)"
    by (rule power_int_increasing) simp_all
  have "(2 :: real) powi (- 10) = 1 / 1024"
    by (simp add: power_int_minus_divide)
  with small have tiny: "(2 :: real) powi (- 1074) \<le> 1 / 1024"
    by simp
  from assms have "\<bar>x\<bar> / 2 ^ 52 \<le> 2 ^ 41 / 2 ^ 52"
    by (rule divide_right_mono) simp
  then have normal: "\<bar>x\<bar> / 2 ^ 52 \<le> 1 / 1024"
    by simp
  from quantum_bound [OF False] tiny normal have "(2 :: real) powi (exponent x - 52) \<le> 1 / 1024"
    by auto
  with rd_quantum [of x] show ?thesis
    by simp
qed

lemma double_constants:
  "rd 0.10 = 3602879701896397 / 36028797018963968"
  "rd 0.20 = 3602879701896397 / 18014398509481984"
  "rd 0.30 = 5404319552844595 / 18014398509481984"
  "rd 0.08 = 5764607523034235 / 72057594037927936"
  "rd 0.06 = 1080863910568919 / 18014398509481984"
  "rd 0.006 = 3458764513820541 / 576460752303423488"
  "rd 0.003 = 3458764513820541 / 1152921504606846976"
  "rd 0.005 = 5764607523034235 / 1152921504606846976"
  by code_simp+

lemma double_constants_near:
  "\<bar>rd 0.10 - 0.10\<bar> \<le> 1 / 10 ^ 16 \<and> \<bar>rd 0.10\<bar> \<le> 1"
  "\<bar>rd 0.20 - 0.20\<bar> \<le> 1 / 10 ^ 16 \<and> \<bar>rd 0.20\<bar> \<le> 1"
  "\<bar>rd 0.30 - 0.30\<bar> \<le> 1 / 10 ^ 16 \<and> \<bar>rd 0.30\<bar> \<le> 1"
  "\<bar>rd 0.08 - 0.08\<bar> \<le> 1 / 10 ^ 16 \<and> \<bar>rd 0.08\<bar> \<le> 1"
  "\<bar>rd 0.06 - 0.06\<bar> \<le> 1 / 10 ^ 16 \<and> \<bar>rd 0.06\<bar> \<le> 1"
  "\<bar>rd 0.006 - 0.006\<bar> \<le> 1 / 10 ^ 16 \<and> \<bar>rd 0.006\<bar> \<le> 1"
  "\<bar>rd 0.003 - 0.003\<bar> \<le> 1 / 10 ^ 16 \<and> \<bar>rd 0.003\<bar> \<le> 1"
  "\<bar>rd 0.005 - 0.005\<bar> \<le> 1 / 10 ^ 16 \<and> \<bar>rd 0.005\<bar> \<le> 1"
  unfolding double_constants by simp_all

lemma scaled_error:
  fixes c c0 a v e d V :: real
  assumes "\<bar>a - v\<bar> \<le> e" and "\<bar>v\<bar> \<le> V" and "\<bar>c - c0\<bar> \<le> d" and "\<bar>c\<bar> \<le> 1"
  shows "\<bar>c * a - c0 * v\<bar> \<le> e + d * V"
proof -
  have "c * a - c0 * v = c * (a - v) + (c - c0) * v"
    by (simp add: algebra_simps)
  then have "\<bar>c * a - c0 * v\<bar> \<le> \<bar>c\<bar> * \<bar>a - v\<bar> + \<bar>c - c0\<bar> * \<bar>v\<bar>"
    by (metis abs_mult abs_triangle_ineq)
  also have "\<bar>c\<bar> * \<bar>a - v\<bar> \<le> 1 * e"
    using assms(1,4) by (intro mult_mono) simp_all
  also have "\<bar>c - c0\<bar> * \<bar>v\<bar> \<le> d * V"
    using assms(2,3) by (intro mult_mono) (simp_all add: order_trans [OF abs_ge_zero assms(3)])
  finally show ?thesis
    by simp
qed

lemma rd_mul:
  fixes c c0 a v e :: real
  assumes "\<bar>a - v\<bar> \<le> e" and "\<bar>v\<bar> \<le> 2 * 10 ^ 12" and "e \<le> 1"
    and "\<bar>c - c0\<bar> \<le> 1 / 10 ^ 16 \<and> \<bar>c\<bar> \<le> 1"
  shows "\<bar>rd (c * a) - c0 * v\<bar> \<le> e + 1 / 1024"
proof -
  from assms have "\<bar>c * a - c0 * v\<bar> \<le> e + 1 / 10 ^ 16 * (2 * 10 ^ 12)"
    by (intro scaled_error) simp_all
  then have near: "\<bar>c * a - c0 * v\<bar> \<le> e + 1 / 5000"
    by simp
  have "\<bar>c * a\<bar> = \<bar>c\<bar> * \<bar>a\<bar>"
    by (rule abs_mult)
  also have "\<dots> \<le> 1 * \<bar>a\<bar>"
    using assms(4) by (intro mult_right_mono) simp_all
  also have "\<dots> \<le> 2 ^ 41"
    using assms(1-3) by simp
  finally have "\<bar>rd (c * a) - c * a\<bar> \<le> 1 / 2048"
    by (rule rd_near)
  with near show ?thesis
    by linarith
qed

lemma rd_add:
  fixes a b v w e f :: real
  assumes "\<bar>a - v\<bar> \<le> e" and "\<bar>b - w\<bar> \<le> f" and "\<bar>v + w\<bar> \<le> 2 * 10 ^ 12" and "e + f \<le> 1"
  shows "\<bar>rd (a + b) - (v + w)\<bar> \<le> e + f + 1 / 2048"
proof -
  from assms have "\<bar>a + b\<bar> \<le> 2 ^ 41"
    by simp
  then have "\<bar>rd (a + b) - (a + b)\<bar> \<le> 1 / 2048"
    by (rule rd_near)
  with assms(1,2) show ?thesis
    by linarith
qed

lemma rd_sub:
  fixes a b v w e f :: real
  assumes "\<bar>a - v\<bar> \<le> e" and "\<bar>b - w\<bar> \<le> f" and "\<bar>v - w\<bar> \<le> 2 * 10 ^ 12" and "e + f \<le> 1"
  shows "\<bar>rd (a - b) - (v - w)\<bar> \<le> e + f + 1 / 2048"
proof -
  from assms have "\<bar>a - b\<bar> \<le> 2 ^ 41"
    by simp
  then have "\<bar>rd (a - b) - (a - b)\<bar> \<le> 1 / 2048"
    by (rule rd_near)
  with assms(1,2) show ?thesis
    by linarith
qed

subsection \<open>The rounding error of the deduction computation\<close>

lemma paye_rwanda_bound: "0 \<le> paye_rwanda g \<and> paye_rwanda g \<le> 0.30 * \<bar>g\<bar>"
  unfolding paye_rwanda_def by (auto simp: field_simps)

lemma paye_rwanda_double_error:
  assumes "\<bar>g\<bar> \<le> 10 ^ 12 + 1"
  shows "\<bar>paye_rwanda_double g - paye_rwanda g\<bar> \<le> 1 / 512"
proof -
  have sub: "\<bar>rd (g - K) - (g - K)\<bar> \<le> 1 / 2048" if "\<bar>K\<bar> \<le> 200000" for K :: real
  proof -
    have "\<bar>rd (g - K) - (g - K)\<bar> \<le> 0 + 0 + 1 / 2048"
      using assms that by (intro rd_sub) simp_all
    then show ?thesis
      by simp
  qed
  have mul: "\<bar>rd (c * rd (g - K)) - c0 * (g - K)\<bar> \<le> 3 / 2048"
    if "\<bar>K\<bar> \<le> 200000" and "\<bar>c - c0\<bar> \<le> 1 / 10 ^ 16 \<and> \<bar>c\<bar> \<le> 1" for K c c0 :: real
  proof -
    have "\<bar>rd (c * rd (g - K)) - c0 * (g - K)\<bar> \<le> 1 / 2048 + 1 / 1024"
      using assms that(1) by (intro rd_mul sub that) simp_all
    then show ?thesis
      by simp
  qed
  have add: "\<bar>rd (B + rd (c * rd (g - K))) - (B + c0 * (g - K))\<bar> \<le> 1 / 512"
    if "\<bar>K\<bar> \<le> 200000" and "\<bar>c - c0\<bar> \<le> 1 / 10 ^ 16 \<and> \<bar>c\<bar> \<le> 1"
      and "0 \<le> B" "B \<le> 24000" "0 \<le> c0" "c0 \<le> 1" "K \<le> g" for K c c0 B :: real
  proof -
    have "c0 * (g - K) \<le> 1 * (g - K)"
      using that by (intro mult_right_mono) simp_all
    then have "\<bar>B + c0 * (g - K)\<bar> \<le> 2 * 10 ^ 12"
      using assms that by (simp add: abs_le_iff) 
    then have "\<bar>rd (B + rd (c * rd (g - K))) - (B + c0 * (g - K))\<bar> \<le> 0 + 3 / 2048 + 1 / 2048"
      using that(1,2) by (intro rd_add mul) simp_all
    then show ?thesis
      by simp
  qed
  consider (b1) "g \<le> 60000" | (b2) "60000 < g" "g \<le> 100000"
    | (b3) "100000 < g" "g \<le> 200000" | (b4) "200000 < g"
    by linarith
  then show ?thesis
  proof cases
    case b1
    then show ?thesis
      by (simp add: paye_rwanda_double_def paye_rwanda_def)
  next
    case b2
    have "\<bar>rd (rd 0.10 * rd (g - 60000)) - 0.10 * (g - 60000)\<bar> \<le> 3 / 2048"
      by (intro mul double_constants_near) simp
    with b2 show ?thesis
      by (simp add: paye_rwanda_double_def paye_rwanda_def)
  next
    case b3
    have "\<bar>rd (4000 + rd (rd 0.20 * rd (g - 100000))) - (4000 + 0.20 * (g - 100000))\<bar> \<le> 1 / 512"
      using b3 by (intro add double_constants_near) simp_all
    with b3 show ?thesis
      by (simp add: paye_rwanda_double_def paye_rwanda_def)
  next
    case b4
    have "\<bar>rd (24000 + rd (rd 0.30 * rd (g - 200000))) - (24000 + 0.30 * (g - 200000))\<bar> \<le> 1 / 512"
      using b4 by (intro add double_constants_near) simp_all
    with b4 show ?thesis
      by (simp add: paye_rwanda_double_def paye_rwanda_def)
  qed
qed

lemma levy_bound:
  fixes x :: real
  shows "\<bar>x\<bar> \<le> 2 * 10 ^ 12 \<Longrightarrow> \<bar>x - 0.005 * x\<bar> \<le> 2 * 10 ^ 12"
  by simp

lemma take_home_2_chain:
  fixes g P p :: real
  assumes g: "\<bar>g\<bar> \<le> 1000000000001"
    and P: "\<bar>P - p\<bar> \<le> 1 / 512"
    and p: "0 \<le> p" "p \<le> 400000000000"
  shows "\<bar>rd (rd (g - rd (rd (rd (rd (P + rd (rd 0.08 * g)) + rd (rd 0.06 * g))
                  + rd (rd 0.006 * g)) + rd (rd 0.003 * g)))
            - rd (rd 0.005 * rd (g - rd (rd (rd (rd (P + rd (rd 0.08 * g)) + rd (rd 0.06 * g))
                  + rd (rd 0.006 * g)) + rd (rd 0.003 * g)))))
          - (g - (p + 0.08 * g + 0.06 * g + 0.006 * g + 0.003 * g)
             - 0.005 * (g - (p + 0.08 * g + 0.06 * g + 0.006 * g + 0.003 * g)))\<bar> \<le> 37 / 2048"
proof -
  have g0: "\<bar>g - g\<bar> \<le> 0"
    by simp
  have e1: "\<bar>rd (rd 0.08 * g) - 0.08 * g\<bar> \<le> 0 + 1 / 1024"
    using g by (intro rd_mul g0 double_constants_near) simp_all
  have e2: "\<bar>rd (rd 0.06 * g) - 0.06 * g\<bar> \<le> 0 + 1 / 1024"
    using g by (intro rd_mul g0 double_constants_near) simp_all
  have e3: "\<bar>rd (rd 0.006 * g) - 0.006 * g\<bar> \<le> 0 + 1 / 1024"
    using g by (intro rd_mul g0 double_constants_near) simp_all
  have e4: "\<bar>rd (rd 0.003 * g) - 0.003 * g\<bar> \<le> 0 + 1 / 1024"
    using g by (intro rd_mul g0 double_constants_near) simp_all
  let ?s1 = "rd (P + rd (rd 0.08 * g))" and ?t1 = "p + 0.08 * g"
  have s1: "\<bar>?s1 - ?t1\<bar> \<le> 1 / 512 + (0 + 1 / 1024) + 1 / 2048"
    using g p by (intro rd_add P e1) (simp_all add: abs_le_iff)
  let ?s2 = "rd (?s1 + rd (rd 0.06 * g))" and ?t2 = "?t1 + 0.06 * g"
  have s2: "\<bar>?s2 - ?t2\<bar> \<le> 1 / 512 + (0 + 1 / 1024) + 1 / 2048 + (0 + 1 / 1024) + 1 / 2048"
    using g p by (intro rd_add s1 e2) (simp_all add: abs_le_iff)
  let ?s3 = "rd (?s2 + rd (rd 0.006 * g))" and ?t3 = "?t2 + 0.006 * g"
  have s3: "\<bar>?s3 - ?t3\<bar> \<le> 1 / 512 + (0 + 1 / 1024) + 1 / 2048 + (0 + 1 / 1024) + 1 / 2048
                         + (0 + 1 / 1024) + 1 / 2048"
    using g p by (intro rd_add s2 e3) (simp_all add: abs_le_iff)
  let ?s4 = "rd (?s3 + rd (rd 0.003 * g))" and ?t4 = "?t3 + 0.003 * g"
  have "\<bar>?s4 - ?t4\<bar> \<le> 1 / 512 + (0 + 1 / 1024) + 1 / 2048 + (0 + 1 / 1024) + 1 / 2048
                         + (0 + 1 / 1024) + 1 / 2048 + (0 + 1 / 1024) + 1 / 2048"
    using g p by (intro rd_add s3 e4) (simp_all add: abs_le_iff)
  then have s4: "\<bar>?s4 - ?t4\<bar> \<le> 16 / 2048"
    by linarith
  let ?N = "rd (g - ?s4)" and ?n = "g - ?t4"
  have n: "\<bar>?n\<bar> \<le> 2 * 10 ^ 12"
    using g p by (simp add: abs_le_iff)
  have "\<bar>?N - ?n\<bar> \<le> 0 + 16 / 2048 + 1 / 2048"
    using n by (intro rd_sub g0 s4) simp_all
  then have N: "\<bar>?N - ?n\<bar> \<le> 17 / 2048"
    by linarith
  let ?C = "rd (rd 0.005 * ?N)" and ?c = "0.005 * ?n"
  have "\<bar>?C - ?c\<bar> \<le> 17 / 2048 + 1 / 1024"
    using n by (intro rd_mul N double_constants_near) simp_all
  then have C: "\<bar>?C - ?c\<bar> \<le> 19 / 2048"
    by linarith
  have "\<bar>?n - ?c\<bar> \<le> 2 * 10 ^ 12"
    using n by (rule levy_bound)
  then have "\<bar>rd (?N - ?C) - (?n - ?c)\<bar> \<le> 17 / 2048 + 19 / 2048 + 1 / 2048"
    by (intro rd_sub N C) simp_all
  then have "\<bar>rd (?N - ?C) - (?n - ?c)\<bar> \<le> 37 / 2048"
    by linarith
  then show ?thesis .
qed

lemma paye_rwanda_le: "\<bar>g\<bar> \<le> 1000000000001 \<Longrightarrow> paye_rwanda g \<le> 400000000000"
  unfolding paye_rwanda_def by (auto simp: field_simps)

lemma calc_all_double_error:
  assumes "\<bar>gross\<bar> \<le> 10 ^ 12"
  shows "\<bar>take_home_2 (calc_all_double gross apply_tax)
          - take_home_2 (calc_all (rd gross) apply_tax)\<bar> \<le> 37 / 2048"
proof -
  from assms have "\<bar>gross\<bar> \<le> 2 ^ 41"
    by simp
  then have "\<bar>rd gross - gross\<bar> \<le> 1 / 2048"
    by (rule rd_near)
  moreover from assms have "\<bar>gross\<bar> \<le> 1000000000000"
    by simp
  ultimately have g: "\<bar>rd gross\<bar> \<le> 1000000000001"
    by linarith
  show ?thesis
  proof (cases apply_tax)
    case True
    from g have "\<bar>rd gross\<bar> \<le> 10 ^ 12 + 1"
      by simp
    then have "\<bar>paye_rwanda_double (rd gross) - paye_rwanda (rd gross)\<bar> \<le> 1 / 512"
      by (rule paye_rwanda_double_error)
    moreover have "0 \<le> paye_rwanda (rd gross)"
      by (simp add: paye_rwanda_bound)
    moreover have "paye_rwanda (rd gross) \<le> 400000000000"
      using g by (rule paye_rwanda_le)
    ultimately show ?thesis
      unfolding calc_all_double_def calc_all_def Let_def vals.select_convs
      by (simp only: True if_True) (rule take_home_2_chain [OF g])
  next
    case False
    have "\<bar>(0 :: real) - 0\<bar> \<le> 1 / 512" "(0 :: real) \<le> 0" "(0 :: real) \<le> 400000000000"
      by simp_all
    then show ?thesis
      unfolding calc_all_double_def calc_all_def Let_def vals.select_convs
      by (simp only: False if_False) (rule take_home_2_chain [OF g])
  qed
qed

subsection \<open>Evaluating roundings\<close>

lemma exponent_up_exact:
  "2 ^ e \<le> x \<Longrightarrow> x < 2 * 2 ^ e \<Longrightarrow> e \<le> n \<Longrightarrow> exponent_up n x = int e"
proof (induction e arbitrary: n x)
  case 0
  then show ?case
    by (cases n) simp_all
next
  case (Suc e)
  from Suc.prems(3) obtain n' where n: "n = Suc n'" and le: "e \<le> n'"
    by (cases n) simp_all
  from Suc.prems(1,2) have "2 ^ e \<le> x / 2" and "x / 2 < 2 * 2 ^ e"
    by simp_all
  then have "exponent_up n' (x / 2) = int e"
    using le by (rule Suc.IH)
  moreover have "2 \<le> x"
  proof -
    have "(1 :: real) \<le> 2 ^ e"
      by simp
    moreover from Suc.prems(1) have "2 * 2 ^ e \<le> x"
      by simp
    ultimately show ?thesis
      by linarith
  qed
  ultimately show ?case
    by (simp add: n)
qed

lemma py_round_nearest:
  assumes "\<bar>y - of_int m\<bar> < 1 / 2"
  shows "py_round y = of_int m"
proof (cases "of_int m \<le> y")
  case True
  with assms have "\<lfloor>y\<rfloor> = m"
    by (intro floor_unique) linarith+
  with assms True show ?thesis
    by (simp add: py_round_def Let_def)
next
  case False
  with assms have "\<lfloor>y\<rfloor> = m - 1"
    by (intro floor_unique) (simp, linarith)+
  with assms False show ?thesis
    by (simp add: py_round_def Let_def)
qed

lemma rd_eqI:
  fixes x :: real and e :: nat and m :: int
  assumes "2 ^ e \<le> \<bar>x\<bar>" and "\<bar>x\<bar> < 2 * 2 ^ e" and "e \<le> 1023"
    and "\<bar>x * 2 ^ 52 / 2 ^ e - of_int m\<bar> < 1 / 2"
  shows "rd x = of_int m * 2 ^ e / 2 ^ 52"
proof -
  have "(1 :: real) \<le> 2 ^ e"
    by simp
  with assms(1) have big: "1 \<le> \<bar>x\<bar>"
    by linarith
  from assms(1-3) have "exponent_up 1023 \<bar>x\<bar> = int e"
    by (rule exponent_up_exact)
  with big have "exponent x = int e"
    by (simp add: exponent_def)
  then have q: "(2 :: real) powi (exponent x - 52) = 2 ^ e / 2 ^ 52"
    by (simp add: power_int_diff)
  have "x / (2 ^ e / 2 ^ 52) = x * 2 ^ 52 / 2 ^ e"
    by simp
  with assms(4) have "py_round (x / (2 ^ e / 2 ^ 52)) = of_int m"
    by (intro py_round_nearest) simp
  then show ?thesis
    by (simp add: rd_def Let_def q)
qed


lemma py_round_tie:
  assumes "y = of_int f + 1 / 2"
  shows "py_round y = of_int (if even f then f else f + 1)"
proof -
  from assms have "\<lfloor>y\<rfloor> = f"
    by (intro floor_unique) simp_all
  with assms show ?thesis
    by (simp add: py_round_def Let_def)
qed

lemma rd_tieI:
  fixes x :: real and e :: nat and f :: int
  assumes "2 ^ e \<le> \<bar>x\<bar>" and "\<bar>x\<bar> < 2 * 2 ^ e" and "e \<le> 1023"
    and "x * 2 ^ 52 / 2 ^ e = of_int f + 1 / 2"
  shows "rd x = of_int (if even f then f else f + 1) * 2 ^ e / 2 ^ 52"
proof -
  have "(1 :: real) \<le> 2 ^ e"
    by simp
  with assms(1) have big: "1 \<le> \<bar>x\<bar>"
    by linarith
  from assms(1-3) have "exponent_up 1023 \<bar>x\<bar> = int e"
    by (rule exponent_up_exact)
  with big have "exponent x = int e"
    by (simp add: exponent_def)
  then have q: "(2 :: real) powi (exponent x - 52) = 2 ^ e / 2 ^ 52"
    by (simp add: power_int_diff)
  have "x / (2 ^ e / 2 ^ 52) = x * 2 ^ 52 / 2 ^ e"
    by simp
  with assms(4) have "py_round (x / (2 ^ e / 2 ^ 52)) = of_int (if even f then f else f + 1)"
    by (intro py_round_tie) simp
  then show ?thesis
    unfolding rd_def Let_def q by simp
qed

lemma double_constants_normal:
  "rd (1 / 10) = 3602879701896397 / 36028797018963968"
  "rd (1 / 5) = 3602879701896397 / 18014398509481984"
  "rd (3 / 10) = 5404319552844595 / 18014398509481984"
  "rd (2 / 25) = 5764607523034235 / 72057594037927936"
  "rd (3 / 50) = 1080863910568919 / 18014398509481984"
  "rd (3 / 500) = 3458764513820541 / 576460752303423488"
  "rd (3 / 1000) = 3458764513820541 / 1152921504606846976"
  "rd (1 / 200) = 5764607523034235 / 1152921504606846976"
  using double_constants by simp_all

lemma double_step_1: "rd (2000043 / 2) = 2000043 / 2"
  using rd_eqI [of 19 "2000043 / 2" "8590119275593728"] by simp

lemma double_step_2: "rd (1600043 / 2) = 1600043 / 2"
  using rd_eqI [of 19 "1600043 / 2" "6872132357193728"] by simp

lemma double_step_3: "rd (8647143670292124317585 / 36028797018963968) = 8246558828632473 / 34359738368"
  using rd_eqI [of 17 "8647143670292124317585 / 36028797018963968" "8246558828632473"] by simp

lemma double_step_4: "rd (9071192549464473 / 34359738368) = 1133899068683059 / 4294967296"
  using rd_tieI [of 18 "9071192549464473 / 34359738368" "4535596274732236"] by simp

lemma double_step_5: "rd (11529462924191960472105 / 144115188075855872) = 2748838168189993 / 34359738368"
  using rd_eqI [of 16 "11529462924191960472105 / 144115188075855872" "5497676336379986"] by simp

lemma double_step_6: "rd (2161774298285992463517 / 36028797018963968) = 8246514504569979 / 137438953472"
  using rd_eqI [of 15 "2161774298285992463517 / 36028797018963968" "8246514504569979"] by simp

lemma double_step_7: "rd (6917677754515176283263 / 1152921504606846976) = 6597211603655983 / 1099511627776"
  using rd_eqI [of 12 "6917677754515176283263 / 1152921504606846976" "6597211603655983"] by simp

lemma double_step_8: "rd (6917677754515176283263 / 2305843009213693952) = 6597211603655983 / 2199023255552"
  using rd_eqI [of 11 "6917677754515176283263 / 2305843009213693952" "6597211603655983"] by simp

lemma double_step_9: "rd (11820030717654465 / 34359738368) = 184687979963351 / 536870912"
  using rd_tieI [of 18 "11820030717654465 / 34359738368" "5910015358827232"] by simp

lemma double_step_10: "rd (55526637375187835 / 137438953472) = 6940829671898479 / 17179869184"
  using rd_eqI [of 18 "55526637375187835 / 137438953472" "6940829671898479"] by simp

lemma double_step_11: "rd (450810310605158639 / 1099511627776) = 1760977775801401 / 4294967296"
  using rd_eqI [of 18 "450810310605158639 / 1099511627776" "7043911103205604"] by simp

lemma double_step_12: "rd (908217832813973295 / 2199023255552) = 3547725909429583 / 8589934592"
  using rd_eqI [of 18 "908217832813973295 / 2199023255552" "7095451818859166"] by simp

lemma double_step_13: "rd (5042393366164145 / 8589934592) = 5042393366164145 / 8589934592"
  using rd_eqI [of 19 "5042393366164145 / 8589934592" "5042393366164145"] by simp

lemma double_step_14: "rd (29067418732687750256753464504075 / 9903520314283042199192993792) = 3227131754345053 / 1099511627776"
  using rd_eqI [of 11 "29067418732687750256753464504075 / 9903520314283042199192993792" "6454263508690106"] by simp

lemma double_step_15: "rd (642199219114665507 / 1099511627776) = 1254295349833331 / 2147483648"
  using rd_eqI [of 19 "642199219114665507 / 1099511627776" "5017181399333324"] by simp

lemma double_step_16: "rd (8590119275593729 / 8589934592) = 8590119275593729 / 8589934592"
  using rd_eqI [of 19 "8590119275593729 / 8589934592" "8590119275593729"] by simp

lemma double_step_17: "rd (6872132357193729 / 8589934592) = 6872132357193729 / 8589934592"
  using rd_eqI [of 19 "6872132357193729 / 8589934592" "6872132357193729"] by simp

lemma double_step_18: "rd (37139199267718086114713445544755 / 154742504910672534362390528) = 4123279414316237 / 17179869184"
  using rd_eqI [of 17 "37139199267718086114713445544755 / 154742504910672534362390528" "8246558828632474"] by simp

lemma double_step_19: "rd (4535596274732237 / 17179869184) = 4535596274732237 / 17179869184"
  using rd_eqI [of 18 "4535596274732237 / 17179869184" "4535596274732237"] by simp

lemma double_step_20: "rd (49518666199849003218423218312315 / 618970019642690137449562112) = 5497676336379987 / 68719476736"
  using rd_eqI [of 16 "49518666199849003218423218312315 / 618970019642690137449562112" "5497676336379987"] by simp

lemma double_step_21: "rd (9284749912471687566571898708951 / 154742504910672534362390528) = 2061628626142495 / 34359738368"
  using rd_eqI [of 15 "9284749912471687566571898708951 / 154742504910672534362390528" "8246514504569980"] by simp

lemma double_step_22: "rd (29711199719909401931053930987389 / 4951760157141521099596496896) = 412325725228499 / 68719476736"
  using rd_eqI [of 12 "29711199719909401931053930987389 / 4951760157141521099596496896" "6597211603655984"] by simp

lemma double_step_23: "rd (29711199719909401931053930987389 / 9903520314283042199192993792) = 412325725228499 / 137438953472"
  using rd_eqI [of 11 "29711199719909401931053930987389 / 9903520314283042199192993792" "6597211603655984"] by simp

lemma double_step_24: "rd (23640061435308935 / 68719476736) = 2955007679413617 / 8589934592"
  using rd_eqI [of 18 "23640061435308935 / 68719476736" "5910015358827234"] by simp

lemma double_step_25: "rd (13881659343796963 / 34359738368) = 3470414835949241 / 8589934592"
  using rd_tieI [of 18 "13881659343796963 / 34359738368" "6940829671898481"] by simp

lemma double_step_26: "rd (28175644412822427 / 68719476736) = 7043911103205607 / 17179869184"
  using rd_eqI [of 18 "28175644412822427 / 68719476736" "7043911103205607"] by simp

lemma double_step_27: "rd (56763614550873355 / 137438953472) = 7095451818859169 / 17179869184"
  using rd_eqI [of 18 "56763614550873355 / 137438953472" "7095451818859169"] by simp

lemma double_step_28: "rd (10084786732328289 / 17179869184) = 315149585385259 / 536870912"
  using rd_tieI [of 19 "10084786732328289 / 17179869184" "5042393366164144"] by simp

lemma double_step_29: "rd (1816713670792984030759121341865 / 618970019642690137449562112) = 806782938586263 / 274877906944"
  using rd_eqI [of 11 "1816713670792984030759121341865 / 618970019642690137449562112" "6454263508690104"] by simp

lemma double_step_30: "rd (160549804778666345 / 274877906944) = 5017181399333323 / 8589934592"
  using rd_eqI [of 19 "160549804778666345 / 274877906944" "5017181399333323"] by simp

lemmas double_steps = double_step_1 double_step_2 double_step_3 double_step_4 double_step_5 double_step_6 double_step_7 double_step_8 double_step_9 double_step_10 double_step_11 double_step_12 double_step_13 double_step_14 double_step_15 double_step_16 double_step_17 double_step_18 double_step_19 double_step_20 double_step_21 double_step_22 double_step_23 double_step_24 double_step_25 double_step_26 double_step_27 double_step_28 double_step_29 double_step_30

subsection \<open>Monotonicity in double precision\<close>

text \<open>
  C3. In the code's double arithmetic \<open>take_home_2\<close> is neither non-decreasing over all
  gross values nor strictly increasing for gross greater than 0: 1000021.5 and the next
  binary64 number above it are both representable, yet with \<open>apply_tax\<close> on the larger gross
  yields the smaller \<open>take_home_2\<close> (584076.7872675 against 584076.7872675001).
\<close>

theorem take_home_2_double_not_monotone:
  "rd 1000021.5 = 1000021.5
   \<and> rd (1000021.5 + 1 / 2 ^ 33) = 1000021.5 + 1 / 2 ^ 33
   \<and> (0 :: real) < 1000021.5
   \<and> (1000021.5 :: real) < 1000021.5 + 1 / 2 ^ 33
   \<and> take_home_2 (calc_all_double 1000021.5 True) = 1254295349833331 / 2147483648
   \<and> take_home_2 (calc_all_double (1000021.5 + 1 / 2 ^ 33) True) = 5017181399333323 / 8589934592
   \<and> take_home_2 (calc_all_double (1000021.5 + 1 / 2 ^ 33) True)
       < take_home_2 (calc_all_double 1000021.5 True)"
  by (simp add: calc_all_double_def paye_rwanda_double_def Let_def double_constants_normal
      double_steps)

text \<open>
  C3, as amended. For each fixed \<open>apply_tax\<close> flag, in double arithmetic \<open>take_home_2\<close> is
  strictly increasing across whole units of gross: for gross values \<open>g\<close> and \<open>h\<close> of
  magnitude at most \<open>10 ^ 12\<close> with \<open>g + 1 \<le> h\<close>, the take-home at \<open>g\<close> is below the take-home
  at \<open>h\<close>. The computed value stays within \<open>37 / 2048\<close> of the exact one, which grows by
  more than half a unit per unit of gross.
\<close>

theorem take_home_2_double_unit_steps:
  fixes g h :: real and apply_tax :: bool
  assumes "\<bar>g\<bar> \<le> 10 ^ 12" and "\<bar>h\<bar> \<le> 10 ^ 12" and "g + 1 \<le> h"
  shows "take_home_2 (calc_all_double g apply_tax) < take_home_2 (calc_all_double h apply_tax)"
proof -
  from assms(1) have "\<bar>g\<bar> \<le> 2 ^ 41"
    by simp
  then have g: "\<bar>rd g - g\<bar> \<le> 1 / 2048"
    by (rule rd_near)
  from assms(2) have "\<bar>h\<bar> \<le> 2 ^ 41"
    by simp
  then have h: "\<bar>rd h - h\<bar> \<le> 1 / 2048"
    by (rule rd_near)
  from g h assms(3) have gap: "1023 / 1024 \<le> rd h - rd g"
    by linarith
  then have "rd g \<le> rd h"
    by linarith
  then have "0.548245 * (rd h - rd g)
             \<le> take_home_2 (calc_all (rd h) apply_tax) - take_home_2 (calc_all (rd g) apply_tax)"
    by (rule take_home_2_slope)
  moreover have "0.548245 * (1023 / 1024) \<le> 0.548245 * (rd h - rd g)"
    using gap by (intro mult_left_mono) simp_all
  ultimately have exact: "1 / 2 \<le> take_home_2 (calc_all (rd h) apply_tax)
                              - take_home_2 (calc_all (rd g) apply_tax)"
    by simp
  from calc_all_double_error [OF assms(1), of apply_tax]
    calc_all_double_error [OF assms(2), of apply_tax] exact
  show ?thesis
    by linarith
qed

theorem take_home_2_double_unit_steps_witness:
  "\<bar>37499 :: real\<bar> \<le> 10 ^ 12 \<and> \<bar>37500 :: real\<bar> \<le> 10 ^ 12 \<and> (37499 :: real) + 1 \<le> 37500
   \<and> take_home_2 (calc_all_double 37499 True) < take_home_2 (calc_all_double 37500 True)"
  using take_home_2_double_unit_steps [of 37499 37500 True] by simp

end
